theory Spec2Isabelle
  imports Complex_Main "HOL-Library.Product_Lexorder"
begin

section \<open>Binary64 arithmetic\<close>

text \<open>
  \<^verbatim>\<open>Transaction.amount\<close> is a Python \<^verbatim>\<open>float\<close>, and \<^verbatim>\<open>np.mean\<close>, \<^verbatim>\<open>np.std\<close> compute in
  IEEE-754 binary64. A finite double is the rational it denotes; every operation computes
  the exact result and rounds it to the nearest double, ties to even. The sign of zero is
  not represented: the code compares and divides by numbers it has tested nonzero, and no
  comparison tells \<^verbatim>\<open>-0.0\<close> from \<^verbatim>\<open>0.0\<close>.
\<close>

datatype double = Fin rat | PInf | NInf | NaN

function ilog2 :: "int \<Rightarrow> int" where
  "ilog2 n = (if n < 2 then 0 else 1 + ilog2 (n div 2))"
  by pat_completeness auto
termination
  by (relation "measure nat") auto

declare ilog2.simps [simp del]

definition pow2 :: "int \<Rightarrow> rat" where
  "pow2 k = (if 0 \<le> k then 2 ^ nat k else 1 / 2 ^ nat (- k))"

definition floor_log2 :: "rat \<Rightarrow> int" where
  \<comment> \<open>for \<open>0 < a\<close>: the \<open>e\<close> with \<open>2^e \<le> a < 2^(e+1)\<close>\<close>
  "floor_log2 a =
     (let (p, q) = quotient_of a;
          k = ilog2 p - ilog2 q
      in if pow2 k \<le> a then k else k - 1)"

definition round_half_even :: "rat \<Rightarrow> int" where
  "round_half_even m =
     (let f = \<lfloor>m\<rfloor>; d = m - of_int f
      in if d < 1 / 2 then f else if 1 / 2 < d then f + 1
         else if even f then f else f + 1)"

definition round_double :: "rat \<Rightarrow> double" where
  \<comment> \<open>53 significant bits, exponents from -1022 (subnormals below), overflow to infinity\<close>
  "round_double q =
     (if q = 0 then Fin 0
      else let a = \<bar>q\<bar>;
               e = max (floor_log2 a) (- 1022);
               u = pow2 (e - 52);
               r = of_int (round_half_even (a / u)) * u
           in if pow2 1024 \<le> r then (if 0 < q then PInf else NInf)
              else Fin (if 0 < q then r else - r))"

fun dneg :: "double \<Rightarrow> double" where
  "dneg (Fin a) = Fin (- a)"
| "dneg PInf = NInf"
| "dneg NInf = PInf"
| "dneg NaN = NaN"

fun dadd :: "double \<Rightarrow> double \<Rightarrow> double" where
  "dadd NaN _ = NaN"
| "dadd _ NaN = NaN"
| "dadd (Fin a) (Fin b) = round_double (a + b)"
| "dadd PInf NInf = NaN"
| "dadd NInf PInf = NaN"
| "dadd PInf _ = PInf"
| "dadd NInf _ = NInf"
| "dadd _ PInf = PInf"
| "dadd _ NInf = NInf"

definition dsub :: "double \<Rightarrow> double \<Rightarrow> double" where
  "dsub x y = dadd x (dneg y)"

fun dsgn :: "double \<Rightarrow> int" where
  "dsgn (Fin a) = (if a < 0 then - 1 else if a = 0 then 0 else 1)"
| "dsgn PInf = 1"
| "dsgn NInf = - 1"
| "dsgn NaN = 0"

definition signed_inf :: "int \<Rightarrow> double" where
  "signed_inf s = (if s < 0 then NInf else PInf)"

fun dmul :: "double \<Rightarrow> double \<Rightarrow> double" where
  "dmul NaN _ = NaN"
| "dmul _ NaN = NaN"
| "dmul (Fin a) (Fin b) = round_double (a * b)"
| "dmul x y = (if dsgn x * dsgn y = 0 then NaN else signed_inf (dsgn x * dsgn y))"

fun ddiv :: "double \<Rightarrow> double \<Rightarrow> double" where
  "ddiv NaN _ = NaN"
| "ddiv _ NaN = NaN"
| "ddiv (Fin a) (Fin b) =
     (if b = 0 then (if a = 0 then NaN else signed_inf (dsgn (Fin a)))
      else round_double (a / b))"
| "ddiv (Fin a) _ = Fin 0"
| "ddiv x (Fin b) = signed_inf (dsgn x * (if b < 0 then - 1 else 1))"
| "ddiv _ _ = NaN"

fun dabs :: "double \<Rightarrow> double" where
  "dabs (Fin a) = Fin \<bar>a\<bar>"
| "dabs PInf = PInf"
| "dabs NInf = PInf"
| "dabs NaN = NaN"

function isqrt :: "int \<Rightarrow> int" where
  "isqrt n = (if n < 2 then n
     else let r = 2 * isqrt (n div 4) in if (r + 1) * (r + 1) \<le> n then r + 1 else r)"
  by pat_completeness auto
termination
  by (relation "measure nat") auto

declare isqrt.simps [simp del]

definition sqrt_round :: "rat \<Rightarrow> rat" where
  \<comment> \<open>for \<open>0 < q\<close>: the square root of \<open>q\<close>, correctly rounded\<close>
  "sqrt_round q =
     (let h = floor_log2 q;
          e = max (if even h then h div 2 else (h - 1) div 2) (- 1022);
          u = pow2 (e - 52);
          y = q / (u * u);
          m = isqrt \<lfloor>y\<rfloor>;
          t = (of_int m + 1 / 2) * (of_int m + 1 / 2)
      in of_int (if y < t then m else if t < y then m + 1
                 else if even m then m else m + 1) * u)"

fun dsqrt :: "double \<Rightarrow> double" where
  "dsqrt (Fin a) = (if a < 0 then NaN else if a = 0 then Fin 0 else Fin (sqrt_round a))"
| "dsqrt PInf = PInf"
| "dsqrt NInf = NaN"
| "dsqrt NaN = NaN"

fun dgt :: "double \<Rightarrow> double \<Rightarrow> bool" where
  \<comment> \<open>\<^verbatim>\<open>x > y\<close>; false when either side is NaN\<close>
  "dgt NaN _ = False"
| "dgt _ NaN = False"
| "dgt (Fin a) (Fin b) = (b < a)"
| "dgt PInf y = (y \<noteq> PInf)"
| "dgt NInf _ = False"
| "dgt (Fin a) PInf = False"
| "dgt (Fin a) NInf = True"

fun dne :: "double \<Rightarrow> double \<Rightarrow> bool" where
  \<comment> \<open>\<^verbatim>\<open>x != y\<close>; true when either side is NaN\<close>
  "dne NaN _ = True"
| "dne _ NaN = True"
| "dne x y = (x \<noteq> y)"

definition dlit :: "rat \<Rightarrow> double" where
  \<comment> \<open>a decimal literal denotes the nearest double\<close>
  "dlit q = round_double q"

section \<open>NumPy reductions\<close>

text \<open>
  \<^verbatim>\<open>np.mean(a)\<close> is \<^verbatim>\<open>add.reduce(a) / n\<close>; for fewer than eight elements the reduction is a
  plain left-to-right loop. \<^verbatim>\<open>np.std(a)\<close> is
  \<^verbatim>\<open>sqrt(add.reduce((a - mean) * (a - mean)) / n)\<close>.
\<close>

definition np_sum :: "double list \<Rightarrow> double" where
  "np_sum xs = foldl dadd (Fin 0) xs"

definition np_mean :: "double list \<Rightarrow> double" where
  "np_mean xs = ddiv (np_sum xs) (Fin (of_nat (length xs)))"

definition np_std :: "double list \<Rightarrow> double" where
  "np_std xs =
     (let arrmean = np_mean xs;
          x = map (\<lambda>a. dsub a arrmean) xs;
          x2 = map (\<lambda>d. dmul d d) x
      in dsqrt (ddiv (np_sum x2) (Fin (of_nat (length xs)))))"

section \<open>Values, strings and dates\<close>

text \<open>
  Strings are sequences of 8-bit characters. A \<^verbatim>\<open>datetime\<close> is the tuple (year, month, day,
  hour, minute, second, microsecond), ordered lexicographically as Python orders naive
  datetimes.
\<close>

type_synonym datetime = "nat \<times> nat \<times> nat \<times> nat \<times> nat \<times> nat \<times> nat"

datatype error = ValueError | PyMongoError

definition is_digit :: "char \<Rightarrow> bool" where
  "is_digit c = (c \<in> set ''0123456789'')"

definition digit_val :: "char \<Rightarrow> nat" where
  "digit_val c = of_char c - 48"

definition is_space :: "char \<Rightarrow> bool" where
  \<comment> \<open>the characters \<^verbatim>\<open>str.isspace\<close> accepts below 256\<close>
  "is_space c = ((of_char c :: nat) \<in> {9, 10, 11, 12, 13, 28, 29, 30, 31, 32, 133, 160})"

definition strip :: "string \<Rightarrow> string" where
  "strip s = rev (dropWhile is_space (rev (dropWhile is_space s)))"

definition split_first :: "char \<Rightarrow> string \<Rightarrow> string" where
  \<comment> \<open>\<^verbatim>\<open>s.split(sep)[0]\<close>\<close>
  "split_first sep s = takeWhile (\<lambda>c. c \<noteq> sep) s"

subsection \<open>\<^verbatim>\<open>datetime.strptime(s, "%Y-%m-%d %H:%M:%S")\<close>\<close>

text \<open>
  Modelled from the Python standard library (\<^verbatim>\<open>Lib/_strptime.py\<close>), which is not part of the
  repository. The format is compiled to the regular expression
  \<^verbatim>\<open>(\d\d\d\d)-(1[0-2]|0[1-9]|[1-9])-(3[0-1]|[1-2]\d|0[1-9]|[1-9]| [1-9])\s+\<close>
  \<^verbatim>\<open>(2[0-3]|[0-1]\d|\d):([0-5]\d|\d):(6[0-1]|[0-5]\d|\d)\<close>; the first match in
  backtracking order is taken and must consume the whole string, and the fields must form
  a valid date and time. Every failure raises \<^verbatim>\<open>ValueError\<close>. A matcher returns its
  matches, each with the rest of the input, in the order the regex engine tries them.
\<close>

definition two_chars :: "(char \<Rightarrow> bool) \<Rightarrow> (char \<Rightarrow> bool) \<Rightarrow> string \<Rightarrow> (nat \<times> string) list" where
  "two_chars P Q s =
     (case s of a # b # r \<Rightarrow> if P a \<and> Q b then [(10 * digit_val a + digit_val b, r)] else []
      | _ \<Rightarrow> [])"

definition one_char :: "(char \<Rightarrow> bool) \<Rightarrow> string \<Rightarrow> (nat \<times> string) list" where
  "one_char P s = (case s of a # r \<Rightarrow> if P a then [(digit_val a, r)] else [] | _ \<Rightarrow> [])"

definition in_chars :: "string \<Rightarrow> char \<Rightarrow> bool" where
  "in_chars cs c = (c \<in> set cs)"

definition re_Y :: "string \<Rightarrow> (nat \<times> string) list" where
  "re_Y s =
     (case s of a # b # c # d # r \<Rightarrow>
        if is_digit a \<and> is_digit b \<and> is_digit c \<and> is_digit d
        then [(1000 * digit_val a + 100 * digit_val b + 10 * digit_val c + digit_val d, r)]
        else []
      | _ \<Rightarrow> [])"

definition re_m :: "string \<Rightarrow> (nat \<times> string) list" where
  "re_m s = two_chars (in_chars ''1'') (in_chars ''012'') s
          @ two_chars (in_chars ''0'') (in_chars ''123456789'') s
          @ one_char (in_chars ''123456789'') s"

definition re_d :: "string \<Rightarrow> (nat \<times> string) list" where
  "re_d s = two_chars (in_chars ''3'') (in_chars ''01'') s
          @ two_chars (in_chars ''12'') is_digit s
          @ two_chars (in_chars ''0'') (in_chars ''123456789'') s
          @ one_char (in_chars ''123456789'') s
          @ (case s of a # r \<Rightarrow> if a = CHR '' '' then one_char (in_chars ''123456789'') r else []
             | _ \<Rightarrow> [])"

definition re_H :: "string \<Rightarrow> (nat \<times> string) list" where
  "re_H s = two_chars (in_chars ''2'') (in_chars ''0123'') s
          @ two_chars (in_chars ''01'') is_digit s
          @ one_char is_digit s"

definition re_M :: "string \<Rightarrow> (nat \<times> string) list" where
  "re_M s = two_chars (in_chars ''012345'') is_digit s @ one_char is_digit s"

definition re_S :: "string \<Rightarrow> (nat \<times> string) list" where
  "re_S s = two_chars (in_chars ''6'') (in_chars ''01'') s
          @ two_chars (in_chars ''012345'') is_digit s
          @ one_char is_digit s"

definition re_lit :: "char \<Rightarrow> string \<Rightarrow> string list" where
  "re_lit c s = (case s of a # r \<Rightarrow> if a = c then [r] else [] | _ \<Rightarrow> [])"

definition re_spaces :: "string \<Rightarrow> string list" where
  \<comment> \<open>\<^verbatim>\<open>\s+\<close>, greedy: the longest run first\<close>
  "re_spaces s = map (\<lambda>k. drop k s) (rev [1 ..< Suc (length (takeWhile is_space s))])"

definition re_match :: "string \<Rightarrow> ((nat \<times> nat \<times> nat \<times> nat \<times> nat \<times> nat) \<times> string) list" where
  "re_match s =
     [((y, m, d, H, M, S), s11).
        (y, s1) \<leftarrow> re_Y s, s2 \<leftarrow> re_lit CHR ''-'' s1,
        (m, s3) \<leftarrow> re_m s2, s4 \<leftarrow> re_lit CHR ''-'' s3,
        (d, s5) \<leftarrow> re_d s4, s6 \<leftarrow> re_spaces s5,
        (H, s7) \<leftarrow> re_H s6, s8 \<leftarrow> re_lit CHR '':'' s7,
        (M, s9) \<leftarrow> re_M s8, s10 \<leftarrow> re_lit CHR '':'' s9,
        (S, s11) \<leftarrow> re_S s10]"

definition is_leap :: "nat \<Rightarrow> bool" where
  "is_leap y = (y mod 4 = 0 \<and> (y mod 100 \<noteq> 0 \<or> y mod 400 = 0))"

definition days_in_month :: "nat \<Rightarrow> nat \<Rightarrow> nat" where
  "days_in_month y m =
     (if m = 2 then (if is_leap y then 29 else 28)
      else if m \<in> {4, 6, 9, 11} then 30 else 31)"

definition strptime :: "string \<Rightarrow> error + datetime" where
  "strptime s =
     (case re_match s of
        [] \<Rightarrow> Inl ValueError
      | ((y, m, d, H, M, S), rest) # _ \<Rightarrow>
          if rest \<noteq> [] then Inl ValueError
          else if y < 1 \<or> days_in_month y m < d \<or> 59 < S then Inl ValueError
          else Inr (y, m, d, H, M, S, 0))"

section \<open>Requests, documents and the process state\<close>

record Transaction =
  transaction_id :: string
  timestamp :: string
  amount :: double
  location :: string
  card_type :: string
  currency :: string
  recipient_account :: string

record PinVerification =
  account :: string
  pin :: string
  transaction :: Transaction

text \<open>
  Of a \<^verbatim>\<open>Request\<close> the handlers read the headers (names in lower case, in arrival order)
  and the peer address of the connection.
\<close>

record Request =
  headers :: "(string \<times> string) list"
  client_host :: string

text \<open>The documents of the three MongoDB collections, with the keys the handlers write.\<close>

record transaction_doc =
  doc_transaction_id :: string
  doc_timestamp :: datetime
  doc_amount :: double
  doc_location :: string
  doc_card_type :: string
  doc_currency :: string
  doc_recipient_account :: string
  doc_client_ip :: string
  doc_is_fraud :: bool
  doc_fraud_reason :: "string list"
  doc_status :: string
  doc_pin_verified :: bool
  doc_created_at :: datetime
  doc_verified_at :: "datetime option"

record blacklist_doc =
  bl_type :: string
  bl_value :: string
  bl_reason :: "string list"
  bl_timestamp :: datetime
  bl_blocked_by :: string

record user_doc =
  user_name :: string
  user_account :: string
  user_phone :: string
  user_password :: string
  user_pin :: string
  user_is_active :: bool

text \<open>
  The state is the three collections, in insertion order, the module-level dictionary
  \<^verbatim>\<open>last_known_location\<close>, and whether the database answers: when it does not, every
  collection method raises.
\<close>

record state =
  collection :: "transaction_doc list"
  blacklist_collection :: "blacklist_doc list"
  users_collection :: "user_doc list"
  last_known_location :: "string \<rightharpoonup> string"
  mongo_up :: bool

datatype response =
    Envelope bool string
  | FraudResult bool "string list"

fun is_envelope :: "response \<Rightarrow> bool" where
  "is_envelope (Envelope _ _) = True"
| "is_envelope (FraudResult _ _) = False"

fun fraud :: "response \<Rightarrow> bool" where
  "fraud (FraudResult f _) = f"
| "fraud (Envelope _ _) = False"

fun reasons :: "response \<Rightarrow> string list" where
  "reasons (FraudResult _ rs) = rs"
| "reasons (Envelope _ _) = []"

definition location_lookup :: "string \<rightharpoonup> double \<times> double" where
  "location_lookup = map_of
     [(''Chennai'', (dlit (130827 / 10000), dlit (802707 / 10000))),
      (''Mumbai'', (dlit (19076 / 1000), dlit (728777 / 10000))),
      (''Delhi'', (dlit (286139 / 10000), dlit (77209 / 1000))),
      (''Bangalore'', (dlit (129716 / 10000), dlit (775946 / 10000)))]"

definition BLACKLISTED_IPS :: "string set" where
  "BLACKLISTED_IPS = {''203.0.113.5'', ''198.51.100.10'', ''45.33.32.156''}"

subsection \<open>Collection methods\<close>

definition users_find_one :: "state \<Rightarrow> string \<Rightarrow> error + user_doc option" where
  "users_find_one s a =
     (if mongo_up s then Inr (find (\<lambda>u. user_account u = a) (users_collection s))
      else Inl PyMongoError)"

definition blacklist_find_one :: "state \<Rightarrow> string \<Rightarrow> string \<Rightarrow> error + blacklist_doc option" where
  "blacklist_find_one s t v =
     (if mongo_up s then Inr (find (\<lambda>e. bl_type e = t \<and> bl_value e = v) (blacklist_collection s))
      else Inl PyMongoError)"

definition blacklist_insert_one :: "state \<Rightarrow> blacklist_doc \<Rightarrow> error + state" where
  "blacklist_insert_one s e =
     (if mongo_up s then Inr (s\<lparr>blacklist_collection := blacklist_collection s @ [e]\<rparr>)
      else Inl PyMongoError)"

definition collection_insert_one :: "state \<Rightarrow> transaction_doc \<Rightarrow> error + state" where
  "collection_insert_one s d =
     (if mongo_up s then Inr (s\<lparr>collection := collection s @ [d]\<rparr>) else Inl PyMongoError)"

fun update_first :: "('a \<Rightarrow> bool) \<Rightarrow> ('a \<Rightarrow> 'a) \<Rightarrow> 'a list \<Rightarrow> 'a list" where
  "update_first P f [] = []"
| "update_first P f (x # xs) = (if P x then f x # xs else x # update_first P f xs)"

definition collection_update_one :: "state \<Rightarrow> string \<Rightarrow> datetime \<Rightarrow> error + state" where
  \<comment> \<open>\<^verbatim>\<open>update_one({"transaction_id": tid}, {"$set": {...}})\<close>: the first match, if any\<close>
  "collection_update_one s tid now =
     (if mongo_up s
      then Inr (s\<lparr>collection := update_first (\<lambda>d. doc_transaction_id d = tid)
                  (\<lambda>d. d\<lparr>doc_pin_verified := True, doc_status := ''approved'',
                          doc_verified_at := Some now\<rparr>) (collection s)\<rparr>)
      else Inl PyMongoError)"

definition collection_find_sorted :: "state \<Rightarrow> string \<Rightarrow> error + transaction_doc list" where
  \<comment> \<open>\<^verbatim>\<open>find({"card_type": c}).sort("timestamp", 1)\<close>; documents with equal timestamps
      keep their insertion order\<close>
  "collection_find_sorted s c =
     (if mongo_up s
      then Inr (sort_key doc_timestamp (filter (\<lambda>d. doc_card_type d = c) (collection s)))
      else Inl PyMongoError)"

section \<open>The handlers\<close>

text \<open>
  \<^verbatim>\<open>hashlib.sha256(p.encode()).hexdigest()\<close> is the parameter \<open>sha256\<close>, and
  \<^verbatim>\<open>geodesic(a, b).km\<close> of geopy the parameter \<open>geodesic\<close>. \<^verbatim>\<open>datetime.now()\<close> is the
  argument \<open>clock\<close> of a handler. \<^verbatim>\<open>send_sms_notification\<close> prints and returns; it has no
  part in the state, and neither has the lookup of the account to alert at the end of
  \<^verbatim>\<open>check_fraud\<close>. \<^verbatim>\<open>verify_pin\<close> runs inside \<^verbatim>\<open>try ... except Exception\<close>;
  \<^verbatim>\<open>check_fraud\<close> does not, so what is raised there leaves the handler.
\<close>

definition verify_password :: "(string \<Rightarrow> string) \<Rightarrow> string \<Rightarrow> string \<Rightarrow> bool" where
  "verify_password sha256 password hashed_password = (sha256 password = hashed_password)"

definition verify_pin_try ::
  "(string \<Rightarrow> string) \<Rightarrow> datetime \<Rightarrow> state \<Rightarrow> PinVerification \<Rightarrow> error + response \<times> state" where
  "verify_pin_try sha256 clock s pin_data =
     (case users_find_one s (account pin_data) of
        Inl e \<Rightarrow> Inl e
      | Inr None \<Rightarrow> Inr (Envelope False ''User not found'', s)
      | Inr (Some user) \<Rightarrow>
          if \<not> verify_password sha256 (pin pin_data) (user_pin user) then
            (let recipient = recipient_account (transaction pin_data) in
             case blacklist_find_one s ''account'' recipient of
               Inl e \<Rightarrow> Inl e
             | Inr (Some _) \<Rightarrow>
                 Inr (Envelope False ''Invalid PIN. Transaction blocked and recipient blacklisted.'', s)
             | Inr None \<Rightarrow>
                 (case blacklist_insert_one s
                    \<lparr>bl_type = ''account'', bl_value = recipient,
                     bl_reason = [''Invalid PIN verification - potential fraud''],
                     bl_timestamp = clock, bl_blocked_by = account pin_data\<rparr> of
                    Inl e \<Rightarrow> Inl e
                  | Inr s' \<Rightarrow>
                      Inr (Envelope False
                             ''Invalid PIN. Transaction blocked and recipient blacklisted.'', s')))
          else
            (case collection_update_one s (transaction_id (transaction pin_data)) clock of
               Inl e \<Rightarrow> Inl e
             | Inr s' \<Rightarrow> Inr (Envelope True ''PIN verified successfully. Transaction approved.'', s')))"

definition verify_pin ::
  "(string \<Rightarrow> string) \<Rightarrow> datetime \<Rightarrow> state \<Rightarrow> PinVerification \<Rightarrow> response \<times> state" where
  \<comment> \<open>\<^verbatim>\<open>except Exception\<close>: a collection method that raises has changed nothing\<close>
  "verify_pin sha256 clock s pin_data =
     (case verify_pin_try sha256 clock s pin_data of
        Inl e \<Rightarrow> (Envelope False ''Internal server error'', s)
      | Inr r \<Rightarrow> r)"

definition window_size :: nat where
  "window_size = 5"

definition z_thresh :: double where
  "z_thresh = dlit (5 / 2)"

definition detect_behavioral_anomaly :: "transaction_doc list \<Rightarrow> double \<Rightarrow> bool" where
  "detect_behavioral_anomaly past_txns current_amount =
     (let amounts = map doc_amount past_txns;
          amounts = drop (length amounts - window_size) amounts
      in if length amounts < 2 then False
         else let mean = np_mean amounts;
                  std = np_std amounts;
                  z_score = (if dne std (Fin 0)
                             then dabs (ddiv (dsub current_amount mean) std) else Fin 0)
              in dgt z_score z_thresh)"

definition max_km :: double where
  "max_km = Fin 500"

definition detect_geo_drift ::
  "(double \<times> double \<Rightarrow> double \<times> double \<Rightarrow> double) \<Rightarrow> (string \<rightharpoonup> string) \<Rightarrow> string \<Rightarrow> string \<Rightarrow> bool" where
  "detect_geo_drift geodesic lkl ctype current_location =
     (if current_location \<notin> dom location_lookup then False
      else let current_coords = the (location_lookup current_location);
               last_location = lkl ctype
           in if (last_location = None \<or> last_location = Some [])
                 \<or> the last_location \<notin> dom location_lookup then False
              else let last_coords = the (location_lookup (the last_location));
                       distance = geodesic last_coords current_coords
                   in dgt distance max_km)"

definition get_client_ip :: "Request \<Rightarrow> string" where
  "get_client_ip request =
     (let forwarded = map_of (headers request) ''x-forwarded-for''
      in if forwarded \<noteq> None \<and> forwarded \<noteq> Some []
         then strip (split_first CHR '','' (the forwarded))
         else client_host request)"

definition check_fraud ::
  "(double \<times> double \<Rightarrow> double \<times> double \<Rightarrow> double) \<Rightarrow> datetime \<Rightarrow> state \<Rightarrow> Transaction \<Rightarrow> Request
     \<Rightarrow> error + response \<times> state" where
  "check_fraud geodesic clock s txn request =
     (case strptime (timestamp txn) of
        Inl e \<Rightarrow> Inl e
      | Inr now \<Rightarrow>
     (let client_ip = get_client_ip request;
          (reasons1, is_fraud1) =
             (if client_ip \<in> BLACKLISTED_IPS
              then ([''Blacklisted IP Address: '' @ client_ip], True) else ([], False))
      in case blacklist_find_one s ''account'' (recipient_account txn) of
        Inl e \<Rightarrow> Inl e
      | Inr found \<Rightarrow>
     (let (reasons2, is_fraud2) =
             (if found \<noteq> None
              then (reasons1 @ [''Blacklisted Recipient Account: '' @ recipient_account txn], True)
              else (reasons1, is_fraud1))
      in case collection_find_sorted s (card_type txn) of
        Inl e \<Rightarrow> Inl e
      | Inr past_txns \<Rightarrow>
     (let (reasons3, is_fraud3) =
             (if detect_behavioral_anomaly past_txns (amount txn)
              then (reasons2 @ [''Abnormal Amount (Behavioral)''], True)
              else (reasons2, is_fraud2));
          (reasons4, is_fraud) =
             (if detect_geo_drift geodesic (last_known_location s) (card_type txn) (location txn)
              then (reasons3 @ [''Geo Drift Detected''], True)
              else (reasons3, is_fraud3));
          s1 = (if \<not> is_fraud
                then s\<lparr>last_known_location :=
                         (last_known_location s)(card_type txn \<mapsto> location txn)\<rparr>
                else s);
          transaction_doc =
            \<lparr>doc_transaction_id = transaction_id txn, doc_timestamp = now,
             doc_amount = amount txn, doc_location = location txn,
             doc_card_type = card_type txn, doc_currency = currency txn,
             doc_recipient_account = recipient_account txn, doc_client_ip = client_ip,
             doc_is_fraud = is_fraud, doc_fraud_reason = reasons4,
             doc_status = (if is_fraud then ''pending'' else ''approved''),
             doc_pin_verified = (if is_fraud then False else True),
             doc_created_at = clock, doc_verified_at = None\<rparr>
      in case collection_insert_one s1 transaction_doc of
        Inl e \<Rightarrow> Inl e
      | Inr s2 \<Rightarrow> Inr (FraudResult is_fraud reasons4, s2)))))"

section \<open>Sequences of challenges, and example data\<close>

definition entries_for :: "string \<Rightarrow> blacklist_doc list \<Rightarrow> blacklist_doc list" where
  \<comment> \<open>the stored entries for the pair \<^verbatim>\<open>("account", v)\<close>\<close>
  "entries_for v bl = filter (\<lambda>e. bl_type e = ''account'' \<and> bl_value e = v) bl"

definition failed_pin :: "(string \<Rightarrow> string) \<Rightarrow> user_doc list \<Rightarrow> string \<Rightarrow> PinVerification \<Rightarrow> bool" where
  \<comment> \<open>a challenge that names recipient \<open>r\<close>, for an account that exists, with a wrong PIN\<close>
  "failed_pin sha256 users r pin_data =
     (recipient_account (transaction pin_data) = r \<and>
      (case find (\<lambda>u. user_account u = account pin_data) users of
         None \<Rightarrow> False
       | Some user \<Rightarrow> \<not> verify_password sha256 (pin pin_data) (user_pin user)))"

fun verify_pin_seq :: "(string \<Rightarrow> string) \<Rightarrow> state \<Rightarrow> (datetime \<times> PinVerification) list \<Rightarrow> state" where
  "verify_pin_seq sha256 s [] = s"
| "verify_pin_seq sha256 s ((clock, pin_data) # calls) =
     verify_pin_seq sha256 (snd (verify_pin sha256 clock s pin_data)) calls"

definition invalid_pin_entry :: "string \<Rightarrow> datetime \<Rightarrow> string \<Rightarrow> blacklist_doc" where
  "invalid_pin_entry recipient clock blocker =
     \<lparr>bl_type = ''account'', bl_value = recipient,
      bl_reason = [''Invalid PIN verification - potential fraud''],
      bl_timestamp = clock, bl_blocked_by = blocker\<rparr>"

definition approved :: "datetime \<Rightarrow> transaction_doc \<Rightarrow> transaction_doc" where
  "approved clock d =
     d\<lparr>doc_pin_verified := True, doc_status := ''approved'', doc_verified_at := Some clock\<rparr>"

text \<open>
  \<open>sha256_known\<close> agrees with SHA-256 on the two PINs of the examples, \<^verbatim>\<open>1234\<close> and
  \<^verbatim>\<open>0000\<close>. \<open>geodesic_known\<close> gives 0 km between equal coordinates and 1030 km otherwise,
  the distance between Chennai and Mumbai.
\<close>

definition sha256_known :: "string \<Rightarrow> string" where
  "sha256_known p =
     (if p = ''1234'' then ''03ac674216f3e15c761ee1a5e255f067953623c8b388b4459e13f978d7c846f4''
      else if p = ''0000'' then ''9af15b336e6a9619928537df30b2e6a2376569fcf9d7e773eccede65606529a0''
      else [])"

definition geodesic_known :: "double \<times> double \<Rightarrow> double \<times> double \<Rightarrow> double" where
  "geodesic_known a b = (if a = b then Fin 0 else Fin 1030)"

definition alice :: user_doc where
  "alice = \<lparr>user_name = ''Alice'', user_account = ''ACC1001'', user_phone = ''+910000000001'',
            user_password = sha256_known ''0000'', user_pin = sha256_known ''1234'',
            user_is_active = True\<rparr>"

definition txn1 :: Transaction where
  "txn1 = \<lparr>transaction_id = ''T1'', timestamp = ''2025-08-07 16:55:00'', amount = Fin 100,
           location = ''Chennai'', card_type = ''visa'', currency = ''INR'',
           recipient_account = ''ACC2002''\<rparr>"

definition req1 :: Request where
  "req1 = \<lparr>headers = [], client_host = ''10.0.0.7''\<rparr>"

definition req_forwarded :: Request where
  "req_forwarded = \<lparr>headers = [(''x-forwarded-for'', ''203.0.113.5, 10.0.0.1'')],
                    client_host = ''10.0.0.7''\<rparr>"

definition req_empty_forwarded :: Request where
  "req_empty_forwarded = \<lparr>headers = [(''x-forwarded-for'', [])], client_host = ''203.0.113.5''\<rparr>"

definition state0 :: state where
  "state0 = \<lparr>collection = [], blacklist_collection = [], users_collection = [alice],
             last_known_location = Map.empty, mongo_up = True\<rparr>"

definition clock1 :: datetime where
  "clock1 = (2025, 8, 7, 16, 55, 1, 250000)"

definition clock2 :: datetime where
  "clock2 = (2025, 8, 7, 16, 58, 30, 0)"

definition good_pin :: PinVerification where
  "good_pin = \<lparr>account = ''ACC1001'', pin = ''1234'', transaction = txn1\<rparr>"

definition bad_pin :: PinVerification where
  "bad_pin = \<lparr>account = ''ACC1001'', pin = ''0000'', transaction = txn1\<rparr>"

definition doc1 :: transaction_doc where
  "doc1 = \<lparr>doc_transaction_id = ''T1'', doc_timestamp = (2025, 8, 7, 16, 55, 0, 0),
           doc_amount = Fin 100, doc_location = ''Chennai'', doc_card_type = ''visa'',
           doc_currency = ''INR'', doc_recipient_account = ''ACC2002'',
           doc_client_ip = ''203.0.113.5'', doc_is_fraud = True,
           doc_fraud_reason = [''Blacklisted IP Address: 203.0.113.5''],
           doc_status = ''pending'', doc_pin_verified = False,
           doc_created_at = clock1, doc_verified_at = None\<rparr>"

definition state1 :: state where
  \<comment> \<open>\<open>T1\<close> has been scored as fraud and waits for its challenge\<close>
  "state1 = state0\<lparr>collection := [doc1]\<rparr>"

definition state_blocked :: state where
  \<comment> \<open>the recipient of \<open>T1\<close> is already blacklisted, by another account\<close>
  "state_blocked =
     state1\<lparr>blacklist_collection := [invalid_pin_entry ''ACC2002'' clock1 ''ACC9999'']\<rparr>"

definition tenth :: "string \<Rightarrow> transaction_doc" where
  \<comment> \<open>an approved transaction of amount 0.1\<close>
  "tenth tid = doc1\<lparr>doc_transaction_id := tid, doc_amount := dlit (1 / 10),
                    doc_client_ip := ''10.0.0.7'', doc_is_fraud := False, doc_fraud_reason := [],
                    doc_status := ''approved'', doc_pin_verified := True\<rparr>"

section \<open>Facts about the collection methods and the handlers\<close>

lemma location_lookup_empty: "location_lookup [] = None"
  by (simp add: location_lookup_def)

lemma update_first_no_match: "\<forall>x \<in> set xs. \<not> P x \<Longrightarrow> update_first P f xs = xs"
  by (induction xs) auto

text \<open>
  What \<^verbatim>\<open>check_fraud\<close> returns and stores when the timestamp parses and the database
  answers, and when it raises instead.
\<close>

lemma check_fraud_unfold:
  assumes "mongo_up s" "strptime (timestamp txn) = Inr now"
    and "ip = get_client_ip request"
    and "found = find (\<lambda>e. bl_type e = ''account'' \<and> bl_value e = recipient_account txn)
                   (blacklist_collection s)"
    and "past = sort_key doc_timestamp (filter (\<lambda>d. doc_card_type d = card_type txn) (collection s))"
    and "v = (ip \<in> BLACKLISTED_IPS \<or> found \<noteq> None \<or> detect_behavioral_anomaly past (amount txn)
       \<or> detect_geo_drift geodesic (last_known_location s) (card_type txn) (location txn))"
    and "rs = (if ip \<in> BLACKLISTED_IPS then [''Blacklisted IP Address: '' @ ip] else [])
       @ (if found \<noteq> None then [''Blacklisted Recipient Account: '' @ recipient_account txn] else [])
       @ (if detect_behavioral_anomaly past (amount txn) then [''Abnormal Amount (Behavioral)''] else [])
       @ (if detect_geo_drift geodesic (last_known_location s) (card_type txn) (location txn)
          then [''Geo Drift Detected''] else [])"
  shows "check_fraud geodesic clock s txn request =
     Inr (FraudResult v rs,
          s\<lparr>last_known_location :=
               (if v then last_known_location s
                else (last_known_location s)(card_type txn \<mapsto> location txn)),
            collection := collection s @
              [\<lparr>doc_transaction_id = transaction_id txn, doc_timestamp = now,
                doc_amount = amount txn, doc_location = location txn,
                doc_card_type = card_type txn, doc_currency = currency txn,
                doc_recipient_account = recipient_account txn, doc_client_ip = ip,
                doc_is_fraud = v, doc_fraud_reason = rs,
                doc_status = (if v then ''pending'' else ''approved''),
                doc_pin_verified = (\<not> v),
                doc_created_at = clock, doc_verified_at = None\<rparr>]\<rparr>)"
  using assms(1,2) unfolding check_fraud_def assms(3-7)
  by (simp add: blacklist_find_one_def collection_find_sorted_def collection_insert_one_def Let_def)

lemma check_fraud_raises:
  "check_fraud geodesic clock s txn request = Inl e \<longleftrightarrow>
     (strptime (timestamp txn) = Inl e \<or> (\<exists>now. strptime (timestamp txn) = Inr now) \<and> \<not> mongo_up s \<and> e = PyMongoError)"
  unfolding check_fraud_def
  by (auto simp add: blacklist_find_one_def collection_find_sorted_def collection_insert_one_def Let_def
      split: sum.splits prod.splits if_splits)


section \<open>Rounding to binary64\<close>

text \<open>
  \<open>floor_log2\<close> is the binade of a positive rational, so \<open>round_double\<close> rounds to 53
  significant bits; a rounding is settled by naming the binade and the rounded significand.
\<close>

lemma pow2_powi: "pow2 k = 2 powi k"
  by (simp add: pow2_def power_int_def inverse_eq_divide power_one_over)

lemma pow2_pos: "0 < pow2 k"
  by (simp add: pow2_powi)

lemma pow2_mono: "i \<le> j \<Longrightarrow> pow2 i \<le> pow2 j"
  by (simp add: pow2_powi power_int_increasing)

lemma pow2_Suc: "pow2 (k + 1) = 2 * pow2 k"
  by (simp add: pow2_powi power_int_add)

lemma ilog2_bounds:
  "1 \<le> n \<Longrightarrow> 0 \<le> ilog2 n \<and> 2 ^ nat (ilog2 n) \<le> n \<and> n < 2 * 2 ^ nat (ilog2 n)"
proof (induction n rule: ilog2.induct)
  case (1 n)
  show ?case
  proof (cases "n < 2")
    case True
    with "1.prems" show ?thesis by (subst ilog2.simps, subst (2) ilog2.simps, subst (3) ilog2.simps) simp
  next
    case False
    then have h: "1 \<le> n div 2" by simp
    from "1.IH" [OF False h] have ih: "0 \<le> ilog2 (n div 2)"
      "2 ^ nat (ilog2 (n div 2)) \<le> n div 2" "n div 2 < 2 * 2 ^ nat (ilog2 (n div 2))" by auto
    have e: "ilog2 n = 1 + ilog2 (n div 2)" using False by (subst ilog2.simps) simp
    have n: "nat (1 + ilog2 (n div 2)) = Suc (nat (ilog2 (n div 2)))" using ih(1) by simp
    show ?thesis unfolding e n using ih by (simp) linarith
  qed
qed

lemma ilog2_rat:
  assumes "1 \<le> n"
  shows "pow2 (ilog2 n) \<le> of_int n" "of_int n < pow2 (ilog2 n + 1)"
proof -
  from ilog2_bounds [OF assms] have b: "0 \<le> ilog2 n" "2 ^ nat (ilog2 n) \<le> n" "n < 2 * 2 ^ nat (ilog2 n)"
    by auto
  have p: "pow2 (ilog2 n) = of_int (2 ^ nat (ilog2 n))" using b(1) by (simp add: pow2_def)
  show "pow2 (ilog2 n) \<le> of_int n" unfolding p using b(2) by (simp only: of_int_le_iff)
  have "(of_int n :: rat) < of_int (2 * 2 ^ nat (ilog2 n))" using b(3) by (simp only: of_int_less_iff)
  then show "of_int n < pow2 (ilog2 n + 1)" unfolding pow2_Suc p by simp
qed

lemma floor_log2_bounds:
  assumes "0 < a"
  shows "pow2 (floor_log2 a) \<le> a \<and> a < pow2 (floor_log2 a + 1)"
proof -
  obtain p q where pq: "quotient_of a = (p, q)" by (cases "quotient_of a")
  then have q: "0 < q" and a: "a = of_int p / of_int q"
    using quotient_of_denom_pos quotient_of_div by blast+
  with assms have p: "0 < p" by (simp add: zero_less_divide_iff)
  define i j where "i = ilog2 p" and "j = ilog2 q"
  have bp: "pow2 i \<le> of_int p" "of_int p < pow2 (i + 1)"
    using ilog2_rat [of p] p by (auto simp: i_def)
  have bq: "pow2 j \<le> of_int q" "of_int q < pow2 (j + 1)"
    using ilog2_rat [of q] q by (auto simp: j_def)
  have qp: "(0::rat) < of_int q" using q by simp
  have "a < pow2 (i + 1) / pow2 j"
  proof -
    have "a < pow2 (i + 1) / of_int q" unfolding a using bp(2) qp by (simp add: divide_strict_right_mono)
    also have "\<dots> \<le> pow2 (i + 1) / pow2 j"
      using bq(1) pow2_pos [of j] pow2_pos [of "i + 1"] by (simp add: frac_le)
    finally show ?thesis .
  qed
  then have up: "a < pow2 (i - j + 1)" by (simp add: pow2_powi power_int_diff power_int_add)
  have "pow2 i / pow2 (j + 1) \<le> a"
  proof -
    have "pow2 i / pow2 (j + 1) \<le> pow2 i / of_int q"
      using bq(2) qp pow2_pos [of i] by (simp add: frac_le)
    also have "\<dots> \<le> a" unfolding a using bp(1) qp by (simp add: divide_right_mono)
    finally show ?thesis .
  qed
  then have lo: "pow2 (i - j - 1) \<le> a" by (simp add: pow2_powi power_int_diff power_int_add)
  have fl: "floor_log2 a = (if pow2 (i - j) \<le> a then i - j else i - j - 1)"
    by (simp add: floor_log2_def pq i_def j_def Let_def)
  show ?thesis
  proof (cases "pow2 (i - j) \<le> a")
    case True
    with up fl show ?thesis by simp
  next
    case False
    with lo fl show ?thesis by simp
  qed
qed

lemma floor_log2_unique:
  assumes "0 < a" "pow2 e \<le> a" "a < pow2 (e + 1)"
  shows "floor_log2 a = e"
proof (rule ccontr)
  assume ne: "floor_log2 a \<noteq> e"
  from floor_log2_bounds [OF assms(1)]
  have b: "pow2 (floor_log2 a) \<le> a" "a < pow2 (floor_log2 a + 1)" by auto
  show False
  proof (cases "floor_log2 a < e")
    case True
    then have "pow2 (floor_log2 a + 1) \<le> pow2 e" by (intro pow2_mono) simp
    with b(2) assms(2) show False by simp
  next
    case False
    with ne have "pow2 (e + 1) \<le> pow2 (floor_log2 a)" by (intro pow2_mono) simp
    with b(1) assms(3) show False by simp
  qed
qed


lemma round_half_even_near:
  assumes "of_int n - 1 / 2 < m" "m < of_int n + 1 / 2"
  shows "round_half_even m = n"
proof (cases "of_int n \<le> m")
  case True
  with assms(2) have "\<lfloor>m\<rfloor> = n" by (intro floor_unique) simp_all
  with assms(2) show ?thesis by (simp add: round_half_even_def Let_def)
next
  case False
  with assms(1) have f: "\<lfloor>m\<rfloor> = n - 1" by (intro floor_unique) simp_all
  have "1 / 2 < m - of_int (n - 1)" using assms(1) by simp
  then show ?thesis unfolding round_half_even_def Let_def f by simp
qed

lemma round_half_even_int: "round_half_even (of_int n) = n"
  by (simp add: round_half_even_def)

lemma round_double_pos:
  assumes "0 < q" "pow2 e \<le> q" "q < pow2 (e + 1)" "- 1022 \<le> e"
    and "round_half_even (q / pow2 (e - 52)) = n" "of_int n * pow2 (e - 52) < pow2 1024"
  shows "round_double q = Fin (of_int n * pow2 (e - 52))"
proof -
  have f: "floor_log2 q = e" using assms(1-3) by (intro floor_log2_unique) simp_all
  have m: "max e (- 1022) = e" using assms(4) by simp
  have a: "\<bar>q\<bar> = q" "q \<noteq> 0" using assms(1) by simp_all
  have o: "\<not> pow2 1024 \<le> of_int n * pow2 (e - 52)" using assms(6) by simp
  show ?thesis unfolding round_double_def Let_def f m a assms(5) using o assms(1) a(2)
    by (simp only: if_False if_True)
qed

lemma round_double_neg:
  assumes "q < 0" "pow2 e \<le> - q" "- q < pow2 (e + 1)" "- 1022 \<le> e"
    and "round_half_even (- q / pow2 (e - 52)) = n" "of_int n * pow2 (e - 52) < pow2 1024"
  shows "round_double q = Fin (- (of_int n * pow2 (e - 52)))"
proof -
  have f: "floor_log2 (- q) = e" using assms(1-3) by (intro floor_log2_unique) simp_all
  have m: "max e (- 1022) = e" using assms(4) by simp
  have a: "\<bar>q\<bar> = - q" "q \<noteq> 0" "\<not> 0 < q" using assms(1) by simp_all
  have o: "\<not> pow2 1024 \<le> of_int n * pow2 (e - 52)" using assms(6) by simp
  show ?thesis unfolding round_double_def Let_def f m a(1) assms(5) using o a(2,3)
    by (simp only: if_False if_True)
qed


lemma round_half_even_tie:
  assumes "m = of_int f + 1 / 2"
  shows "round_half_even m = (if even f then f else f + 1)"
proof -
  have "\<lfloor>m\<rfloor> = f" unfolding assms by (intro floor_unique) simp_all
  then show ?thesis by (simp add: round_half_even_def Let_def assms)
qed

section \<open>The behavioral anomaly detector\<close>

text \<open>
  Claim C5. For every instrument history with fewer than 2 prior amounts and for every
  candidate amount, the behavioral anomaly detector reports not anomalous.
\<close>

theorem behavioral_short_history:
  "length past_txns < 2 \<Longrightarrow> \<not> detect_behavioral_anomaly past_txns current_amount"
  by (simp add: detect_behavioral_anomaly_def window_size_def Let_def)

theorem behavioral_short_history_witness:
  "length [doc1] < 2 \<and> \<not> detect_behavioral_anomaly [doc1] (Fin 1000000)"
  using behavioral_short_history [of "[doc1]" "Fin 1000000"] by simp

text \<open>
  The detector on three stored amounts of 0.1 and the candidate amount 100, operation by
  operation: the sum \<^verbatim>\<open>0.1 + 0.1 + 0.1\<close> rounds up to \<^verbatim>\<open>0.30000000000000004\<close>, the mean is
  \<^verbatim>\<open>0.10000000000000002\<close>, every deviation is \<^verbatim>\<open>-2**-56\<close>, and the standard deviation
  is \<^verbatim>\<open>2**-56\<close>.
\<close>

lemma tenth_literal: "dlit (1 / 10) = Fin (3602879701896397 / 36028797018963968)"
proof -
  have r: "round_half_even ((1 / 10) / pow2 (-4 - 52)) = 7205759403792794"
    by (rule round_half_even_near) (simp_all add: pow2_def)
  have "round_double (1 / 10) = Fin (of_int 7205759403792794 * pow2 (-4 - 52))"
    by (rule round_double_pos [OF _ _ _ _ r]) (simp_all add: pow2_def)
  also have "of_int 7205759403792794 * pow2 (-4 - 52) = 3602879701896397 / 36028797018963968" by (simp add: pow2_def)
  finally have "round_double (1 / 10) = Fin (3602879701896397 / 36028797018963968)" .
  then show ?thesis by (simp add: dlit_def)
qed

lemma sum_step1: "dadd (Fin 0) (Fin (3602879701896397 / 36028797018963968)) = Fin (3602879701896397 / 36028797018963968)"
proof -
  have q: "(0::rat) + (3602879701896397 / 36028797018963968) = 3602879701896397 / 36028797018963968" by simp
  have r: "round_half_even ((3602879701896397 / 36028797018963968) / pow2 (-4 - 52)) = 7205759403792794"
    by (rule round_half_even_near) (simp_all add: pow2_def)
  have "round_double (3602879701896397 / 36028797018963968) = Fin (of_int 7205759403792794 * pow2 (-4 - 52))"
    by (rule round_double_pos [OF _ _ _ _ r]) (simp_all add: pow2_def)
  also have "of_int 7205759403792794 * pow2 (-4 - 52) = 3602879701896397 / 36028797018963968" by (simp add: pow2_def)
  finally have "round_double (3602879701896397 / 36028797018963968) = Fin (3602879701896397 / 36028797018963968)" .
  then show ?thesis by (simp add: q dsub_def dlit_def)
qed

lemma sum_step2: "dadd (Fin (3602879701896397 / 36028797018963968)) (Fin (3602879701896397 / 36028797018963968)) = Fin (3602879701896397 / 18014398509481984)"
proof -
  have q: "((3602879701896397 / 36028797018963968)::rat) + (3602879701896397 / 36028797018963968) = 3602879701896397 / 18014398509481984" by simp
  have r: "round_half_even ((3602879701896397 / 18014398509481984) / pow2 (-3 - 52)) = 7205759403792794"
    by (rule round_half_even_near) (simp_all add: pow2_def)
  have "round_double (3602879701896397 / 18014398509481984) = Fin (of_int 7205759403792794 * pow2 (-3 - 52))"
    by (rule round_double_pos [OF _ _ _ _ r]) (simp_all add: pow2_def)
  also have "of_int 7205759403792794 * pow2 (-3 - 52) = 3602879701896397 / 18014398509481984" by (simp add: pow2_def)
  finally have "round_double (3602879701896397 / 18014398509481984) = Fin (3602879701896397 / 18014398509481984)" .
  then show ?thesis by (simp add: q dsub_def dlit_def)
qed

lemma sum_step3: "dadd (Fin (3602879701896397 / 18014398509481984)) (Fin (3602879701896397 / 36028797018963968)) = Fin (1351079888211149 / 4503599627370496)"
proof -
  have q: "((3602879701896397 / 18014398509481984)::rat) + (3602879701896397 / 36028797018963968) = 10808639105689191 / 36028797018963968" by simp
  have r: "round_half_even ((10808639105689191 / 36028797018963968) / pow2 (-2 - 52)) = 5404319552844596"
    using round_half_even_tie [of "(10808639105689191 / 36028797018963968) / pow2 (-2 - 52)" 5404319552844595] by (simp add: pow2_def)
  have "round_double (10808639105689191 / 36028797018963968) = Fin (of_int 5404319552844596 * pow2 (-2 - 52))"
    by (rule round_double_pos [OF _ _ _ _ r]) (simp_all add: pow2_def)
  also have "of_int 5404319552844596 * pow2 (-2 - 52) = 1351079888211149 / 4503599627370496" by (simp add: pow2_def)
  finally have "round_double (10808639105689191 / 36028797018963968) = Fin (1351079888211149 / 4503599627370496)" .
  then show ?thesis by (simp add: q dsub_def dlit_def)
qed

lemma mean_step: "ddiv (Fin (1351079888211149 / 4503599627370496)) (Fin 3) = Fin (7205759403792795 / 72057594037927936)"
proof -
  have q: "((1351079888211149 / 4503599627370496)::rat) / 3 = 1351079888211149 / 13510798882111488" by simp
  have r: "round_half_even ((1351079888211149 / 13510798882111488) / pow2 (-4 - 52)) = 7205759403792795"
    by (rule round_half_even_near) (simp_all add: pow2_def)
  have "round_double (1351079888211149 / 13510798882111488) = Fin (of_int 7205759403792795 * pow2 (-4 - 52))"
    by (rule round_double_pos [OF _ _ _ _ r]) (simp_all add: pow2_def)
  also have "of_int 7205759403792795 * pow2 (-4 - 52) = 7205759403792795 / 72057594037927936" by (simp add: pow2_def)
  finally have "round_double (1351079888211149 / 13510798882111488) = Fin (7205759403792795 / 72057594037927936)" .
  then show ?thesis by (simp add: q dsub_def dlit_def)
qed

lemma dev_step: "dsub (Fin (3602879701896397 / 36028797018963968)) (Fin (7205759403792795 / 72057594037927936)) = Fin (- (1 / 72057594037927936))"
proof -
  have q: "((3602879701896397 / 36028797018963968)::rat) + - (7205759403792795 / 72057594037927936) = - (1 / 72057594037927936)" by simp
  have r: "round_half_even (- (- (1 / 72057594037927936)) / pow2 (-56 - 52)) = 4503599627370496"
    by (rule round_half_even_near) (simp_all add: pow2_def)
  have "round_double (- (1 / 72057594037927936)) = Fin (- (of_int 4503599627370496 * pow2 (-56 - 52)))"
    by (rule round_double_neg [OF _ _ _ _ r]) (simp_all add: pow2_def)
  also have "- (of_int 4503599627370496 * pow2 (-56 - 52)) = - (1 / 72057594037927936)" by (simp add: pow2_def)
  finally have "round_double (- (1 / 72057594037927936)) = Fin (- (1 / 72057594037927936))" .
  then show ?thesis by (simp add: q dsub_def dlit_def)
qed

lemma square_step: "dmul (Fin (- (1 / 72057594037927936))) (Fin (- (1 / 72057594037927936))) = Fin (1 / 5192296858534827628530496329220096)"
proof -
  have q: "((- (1 / 72057594037927936))::rat) * (- (1 / 72057594037927936)) = 1 / 5192296858534827628530496329220096" by simp
  have r: "round_half_even ((1 / 5192296858534827628530496329220096) / pow2 (-112 - 52)) = 4503599627370496"
    by (rule round_half_even_near) (simp_all add: pow2_def)
  have "round_double (1 / 5192296858534827628530496329220096) = Fin (of_int 4503599627370496 * pow2 (-112 - 52))"
    by (rule round_double_pos [OF _ _ _ _ r]) (simp_all add: pow2_def)
  also have "of_int 4503599627370496 * pow2 (-112 - 52) = 1 / 5192296858534827628530496329220096" by (simp add: pow2_def)
  finally have "round_double (1 / 5192296858534827628530496329220096) = Fin (1 / 5192296858534827628530496329220096)" .
  then show ?thesis by (simp add: q dsub_def dlit_def)
qed

lemma sq_sum_step1: "dadd (Fin 0) (Fin (1 / 5192296858534827628530496329220096)) = Fin (1 / 5192296858534827628530496329220096)"
proof -
  have q: "(0::rat) + (1 / 5192296858534827628530496329220096) = 1 / 5192296858534827628530496329220096" by simp
  have r: "round_half_even ((1 / 5192296858534827628530496329220096) / pow2 (-112 - 52)) = 4503599627370496"
    by (rule round_half_even_near) (simp_all add: pow2_def)
  have "round_double (1 / 5192296858534827628530496329220096) = Fin (of_int 4503599627370496 * pow2 (-112 - 52))"
    by (rule round_double_pos [OF _ _ _ _ r]) (simp_all add: pow2_def)
  also have "of_int 4503599627370496 * pow2 (-112 - 52) = 1 / 5192296858534827628530496329220096" by (simp add: pow2_def)
  finally have "round_double (1 / 5192296858534827628530496329220096) = Fin (1 / 5192296858534827628530496329220096)" .
  then show ?thesis by (simp add: q dsub_def dlit_def)
qed

lemma sq_sum_step2: "dadd (Fin (1 / 5192296858534827628530496329220096)) (Fin (1 / 5192296858534827628530496329220096)) = Fin (1 / 2596148429267413814265248164610048)"
proof -
  have q: "((1 / 5192296858534827628530496329220096)::rat) + (1 / 5192296858534827628530496329220096) = 1 / 2596148429267413814265248164610048" by simp
  have r: "round_half_even ((1 / 2596148429267413814265248164610048) / pow2 (-111 - 52)) = 4503599627370496"
    by (rule round_half_even_near) (simp_all add: pow2_def)
  have "round_double (1 / 2596148429267413814265248164610048) = Fin (of_int 4503599627370496 * pow2 (-111 - 52))"
    by (rule round_double_pos [OF _ _ _ _ r]) (simp_all add: pow2_def)
  also have "of_int 4503599627370496 * pow2 (-111 - 52) = 1 / 2596148429267413814265248164610048" by (simp add: pow2_def)
  finally have "round_double (1 / 2596148429267413814265248164610048) = Fin (1 / 2596148429267413814265248164610048)" .
  then show ?thesis by (simp add: q dsub_def dlit_def)
qed

lemma sq_sum_step3: "dadd (Fin (1 / 2596148429267413814265248164610048)) (Fin (1 / 5192296858534827628530496329220096)) = Fin (3 / 5192296858534827628530496329220096)"
proof -
  have q: "((1 / 2596148429267413814265248164610048)::rat) + (1 / 5192296858534827628530496329220096) = 3 / 5192296858534827628530496329220096" by simp
  have r: "round_half_even ((3 / 5192296858534827628530496329220096) / pow2 (-111 - 52)) = 6755399441055744"
    by (rule round_half_even_near) (simp_all add: pow2_def)
  have "round_double (3 / 5192296858534827628530496329220096) = Fin (of_int 6755399441055744 * pow2 (-111 - 52))"
    by (rule round_double_pos [OF _ _ _ _ r]) (simp_all add: pow2_def)
  also have "of_int 6755399441055744 * pow2 (-111 - 52) = 3 / 5192296858534827628530496329220096" by (simp add: pow2_def)
  finally have "round_double (3 / 5192296858534827628530496329220096) = Fin (3 / 5192296858534827628530496329220096)" .
  then show ?thesis by (simp add: q dsub_def dlit_def)
qed

lemma variance_step: "ddiv (Fin (3 / 5192296858534827628530496329220096)) (Fin 3) = Fin (1 / 5192296858534827628530496329220096)"
proof -
  have q: "((3 / 5192296858534827628530496329220096)::rat) / 3 = 1 / 5192296858534827628530496329220096" by simp
  have r: "round_half_even ((1 / 5192296858534827628530496329220096) / pow2 (-112 - 52)) = 4503599627370496"
    by (rule round_half_even_near) (simp_all add: pow2_def)
  have "round_double (1 / 5192296858534827628530496329220096) = Fin (of_int 4503599627370496 * pow2 (-112 - 52))"
    by (rule round_double_pos [OF _ _ _ _ r]) (simp_all add: pow2_def)
  also have "of_int 4503599627370496 * pow2 (-112 - 52) = 1 / 5192296858534827628530496329220096" by (simp add: pow2_def)
  finally have "round_double (1 / 5192296858534827628530496329220096) = Fin (1 / 5192296858534827628530496329220096)" .
  then show ?thesis by (simp add: q dsub_def dlit_def)
qed

lemma diff_step: "dsub (Fin 100) (Fin (7205759403792795 / 72057594037927936)) = Fin (3514918771674317 / 35184372088832)"
proof -
  have q: "(100::rat) + - (7205759403792795 / 72057594037927936) = 7198553644389000805 / 72057594037927936" by simp
  have r: "round_half_even ((7198553644389000805 / 72057594037927936) / pow2 (6 - 52)) = 7029837543348634"
    by (rule round_half_even_near) (simp_all add: pow2_def)
  have "round_double (7198553644389000805 / 72057594037927936) = Fin (of_int 7029837543348634 * pow2 (6 - 52))"
    by (rule round_double_pos [OF _ _ _ _ r]) (simp_all add: pow2_def)
  also have "of_int 7029837543348634 * pow2 (6 - 52) = 3514918771674317 / 35184372088832" by (simp add: pow2_def)
  finally have "round_double (7198553644389000805 / 72057594037927936) = Fin (3514918771674317 / 35184372088832)" .
  then show ?thesis by (simp add: q dsub_def dlit_def)
qed

lemma z_step: "ddiv (Fin (3514918771674317 / 35184372088832)) (Fin (1 / 72057594037927936)) = Fin 7198553644389001216"
proof -
  have q: "((3514918771674317 / 35184372088832)::rat) / (1 / 72057594037927936) = 7198553644389001216" by simp
  have r: "round_half_even (7198553644389001216 / pow2 (62 - 52)) = 7029837543348634"
    by (rule round_half_even_near) (simp_all add: pow2_def)
  have "round_double 7198553644389001216 = Fin (of_int 7029837543348634 * pow2 (62 - 52))"
    by (rule round_double_pos [OF _ _ _ _ r]) (simp_all add: pow2_def)
  also have "of_int 7029837543348634 * pow2 (62 - 52) = 7198553644389001216" by (simp add: pow2_def)
  finally have "round_double 7198553644389001216 = Fin 7198553644389001216" .
  then show ?thesis by (simp add: q dsub_def dlit_def)
qed

lemma z_thresh_value: "z_thresh = Fin (5 / 2)"
proof -
  have r: "round_half_even ((5 / 2) / pow2 (1 - 52)) = 5629499534213120"
    by (rule round_half_even_near) (simp_all add: pow2_def)
  have "round_double (5 / 2) = Fin (of_int 5629499534213120 * pow2 (1 - 52))"
    by (rule round_double_pos [OF _ _ _ _ r]) (simp_all add: pow2_def)
  also have "of_int 5629499534213120 * pow2 (1 - 52) = 5 / 2" by (simp add: pow2_def)
  finally have "round_double (5 / 2) = Fin (5 / 2)" .
  then show ?thesis by (simp add: z_thresh_def dlit_def)
qed

lemma isqrt_value: "isqrt 20282409603651670423947251286016 = 4503599627370496"
  by code_simp

lemma std_step: "dsqrt (Fin (1 / 5192296858534827628530496329220096)) = Fin (1 / 72057594037927936)"
proof -
  have f: "floor_log2 (1 / 5192296858534827628530496329220096) = - 112"
    by (rule floor_log2_unique) (simp_all add: pow2_def)
  have y: "\<lfloor>((1 / 5192296858534827628530496329220096)::rat) / (pow2 (- 56 - 52) * pow2 (- 56 - 52))\<rfloor> = 20282409603651670423947251286016"
    by (simp add: pow2_def)
  have "sqrt_round (1 / 5192296858534827628530496329220096) = 1 / 72057594037927936"
    unfolding sqrt_round_def Let_def f
    by (simp add: pow2_def isqrt_value)
  then show ?thesis by simp
qed

lemma tenths_amounts:
  "map doc_amount [tenth ''T1'', tenth ''T2'', tenth ''T3'']
     = [Fin (3602879701896397 / 36028797018963968), Fin (3602879701896397 / 36028797018963968), Fin (3602879701896397 / 36028797018963968)]"
  by (simp add: tenth_def tenth_literal)

lemma behavioral_zero_std:
  "np_std (drop (length past_txns - window_size) (map doc_amount past_txns)) = Fin 0
     \<Longrightarrow> \<not> detect_behavioral_anomaly past_txns current_amount"
  by (simp add: detect_behavioral_anomaly_def Let_def z_thresh_value)

text \<open>
  Claim C4 says that for every history whose windowed amounts are all identical, and for
  every candidate amount, the detector reports not anomalous, because the standard
  deviation is zero. The code compares the computed standard deviation with 0, and in
  binary64 it is not always 0 for identical amounts: with the three amounts
  \<^verbatim>\<open>[0.1, 0.1, 0.1]\<close> it is \<^verbatim>\<open>2**-56\<close>, and the candidate amount 100 is reported
  anomalous.
\<close>

theorem behavioral_identical_window_flagged:
  "map doc_amount [tenth ''T1'', tenth ''T2'', tenth ''T3''] = [dlit (1 / 10), dlit (1 / 10), dlit (1 / 10)] \<and>
   np_std [dlit (1 / 10), dlit (1 / 10), dlit (1 / 10)] = Fin (1 / 72057594037927936) \<and>
   detect_behavioral_anomaly [tenth ''T1'', tenth ''T2'', tenth ''T3''] (Fin 100)"
proof -
  have m: "np_mean [Fin (3602879701896397 / 36028797018963968), Fin (3602879701896397 / 36028797018963968), Fin (3602879701896397 / 36028797018963968)] = Fin (7205759403792795 / 72057594037927936)"
    by (simp add: np_mean_def np_sum_def sum_step1 sum_step2 sum_step3 mean_step
        del: dadd.simps ddiv.simps)
  have s: "np_std [Fin (3602879701896397 / 36028797018963968), Fin (3602879701896397 / 36028797018963968), Fin (3602879701896397 / 36028797018963968)] = Fin (1 / 72057594037927936)"
    unfolding np_std_def Let_def m
    by (simp add: np_sum_def dev_step square_step sq_sum_step1 sq_sum_step2 sq_sum_step3
        variance_step std_step del: dadd.simps ddiv.simps dmul.simps dsqrt.simps)
  have a: "detect_behavioral_anomaly [tenth ''T1'', tenth ''T2'', tenth ''T3''] (Fin 100)"
    unfolding detect_behavioral_anomaly_def Let_def tenths_amounts
    by (simp add: window_size_def m s diff_step z_step z_thresh_value
        del: dadd.simps ddiv.simps dmul.simps dsqrt.simps)
  show ?thesis using a s by (simp add: tenth_def tenth_literal)
qed

section \<open>The geo drift detector\<close>

text \<open>
  Claim C6. The geo drift detector reports not flagged when the candidate location is not
  in the geo reference, when no last accepted location is recorded for the instrument, or
  when the recorded location is not in the geo reference; otherwise it reports flagged
  exactly when the distance between the two resolved coordinate pairs exceeds 500 km.
  The distance is the one \<^verbatim>\<open>geopy.distance.geodesic\<close> computes, whatever it is.
\<close>

theorem geo_drift_cases:
  "(location_lookup current_location = None \<longrightarrow>
      \<not> detect_geo_drift geodesic lkl ctype current_location) \<and>
   (lkl ctype = None \<longrightarrow> \<not> detect_geo_drift geodesic lkl ctype current_location) \<and>
   (lkl ctype = Some last_location \<and> location_lookup last_location = None \<longrightarrow>
      \<not> detect_geo_drift geodesic lkl ctype current_location) \<and>
   (location_lookup current_location = Some current_coords \<and> lkl ctype = Some last_location \<and>
    location_lookup last_location = Some last_coords \<longrightarrow>
      detect_geo_drift geodesic lkl ctype current_location
        = dgt (geodesic last_coords current_coords) (Fin 500))"
proof (intro conjI impI)
  assume "location_lookup current_location = None"
  then show "\<not> detect_geo_drift geodesic lkl ctype current_location"
    by (simp add: detect_geo_drift_def domIff)
next
  assume "lkl ctype = None"
  then show "\<not> detect_geo_drift geodesic lkl ctype current_location"
    by (simp add: detect_geo_drift_def Let_def)
next
  assume "lkl ctype = Some last_location \<and> location_lookup last_location = None"
  then show "\<not> detect_geo_drift geodesic lkl ctype current_location"
    by (simp add: detect_geo_drift_def Let_def domIff)
next
  assume a: "location_lookup current_location = Some current_coords \<and> lkl ctype = Some last_location \<and>
    location_lookup last_location = Some last_coords"
  then have n: "last_location \<noteq> []" using location_lookup_empty by auto
  from a have d: "current_location \<in> dom location_lookup" "last_location \<in> dom location_lookup"
    by (auto intro: domI)
  from a n d show "detect_geo_drift geodesic lkl ctype current_location
        = dgt (geodesic last_coords current_coords) (Fin 500)"
    by (simp add: detect_geo_drift_def Let_def max_km_def)
qed

theorem geo_drift_cases_witness:
  "location_lookup ''Paris'' = None \<and>
   \<not> detect_geo_drift geodesic_known [''visa'' \<mapsto> ''Chennai''] ''visa'' ''Paris'' \<and>
   \<not> detect_geo_drift geodesic_known Map.empty ''visa'' ''Mumbai'' \<and>
   \<not> detect_geo_drift geodesic_known [''visa'' \<mapsto> ''Paris''] ''visa'' ''Mumbai'' \<and>
   location_lookup ''Mumbai'' = Some (the (location_lookup ''Mumbai'')) \<and>
   location_lookup ''Chennai'' = Some (the (location_lookup ''Chennai'')) \<and>
   detect_geo_drift geodesic_known [''visa'' \<mapsto> ''Chennai''] ''visa'' ''Mumbai''
     = dgt (geodesic_known (the (location_lookup ''Chennai'')) (the (location_lookup ''Mumbai'')))
         (Fin 500)"
proof -
  have p: "location_lookup ''Paris'' = None" by (simp add: location_lookup_def)
  have m: "location_lookup ''Mumbai'' = Some (the (location_lookup ''Mumbai''))"
    by (simp add: location_lookup_def)
  have c: "location_lookup ''Chennai'' = Some (the (location_lookup ''Chennai''))"
    by (simp add: location_lookup_def)
  show ?thesis
    using p m c
      geo_drift_cases [of "''Paris''" geodesic_known "[''visa'' \<mapsto> ''Chennai'']" "''visa''"]
      geo_drift_cases [of "''Mumbai''" geodesic_known Map.empty "''visa''"]
      geo_drift_cases [of "''Mumbai''" geodesic_known "[''visa'' \<mapsto> ''Paris'']" "''visa''"
        "''Paris''"]
      geo_drift_cases [of "''Mumbai''" geodesic_known "[''visa'' \<mapsto> ''Chennai'']" "''visa''"
        "''Chennai''" "the (location_lookup ''Mumbai'')" "the (location_lookup ''Chennai'')"]
    by simp
qed

section \<open>The decision engine\<close>

lemma find_entries_for:
  "find (\<lambda>e. bl_type e = ''account'' \<and> bl_value e = v) bl = None \<longleftrightarrow> entries_for v bl = []"
  by (auto simp: entries_for_def find_None_iff filter_empty_conv)

lemma check_fraud_returns:
  assumes "check_fraud geodesic clock s txn request = Inr (r, s')"
  shows "mongo_up s \<and> (\<exists>now. strptime (timestamp txn) = Inr now)"
proof (cases "strptime (timestamp txn)")
  case (Inl e)
  with assms show ?thesis by (simp add: check_fraud_def)
next
  case (Inr now)
  have "mongo_up s"
  proof (rule ccontr)
    assume "\<not> mongo_up s"
    with Inr have "check_fraud geodesic clock s txn request = Inl PyMongoError"
      by (simp add: check_fraud_def blacklist_find_one_def Let_def split: prod.splits)
    with assms show False by simp
  qed
  with Inr show ?thesis by blast
qed

lemma strptime_txn1: "strptime (timestamp txn1) = Inr (2025, 8, 7, 16, 55, 0, 0)"
  unfolding txn1_def by code_simp

lemma state0_quiet:
  "get_client_ip req1 \<notin> BLACKLISTED_IPS"
  "entries_for v (blacklist_collection state0) = []"
  "\<not> detect_behavioral_anomaly (sort_key doc_timestamp (filter P (collection state0))) a"
  "\<not> detect_behavioral_anomaly [] a"
  "\<not> detect_geo_drift g (last_known_location state0) c l"
  by (simp_all add: get_client_ip_def req1_def BLACKLISTED_IPS_def entries_for_def state0_def
      detect_behavioral_anomaly_def detect_geo_drift_def Let_def)

lemma verify_pin_last_known_location:
  "last_known_location (snd (verify_pin sha256 clock s pin_data)) = last_known_location s"
  by (auto simp: verify_pin_def verify_pin_try_def users_find_one_def blacklist_find_one_def
      blacklist_insert_one_def collection_update_one_def Let_def split: option.splits)

lemma verify_pin_found:
  assumes "mongo_up s"
    and "find (\<lambda>u. user_account u = account pin_data) (users_collection s) = Some user"
  shows "verify_pin sha256 clock s pin_data =
     (if verify_password sha256 (pin pin_data) (user_pin user)
      then (Envelope True ''PIN verified successfully. Transaction approved.'',
            s\<lparr>collection :=
                update_first (\<lambda>d. doc_transaction_id d = transaction_id (transaction pin_data))
                  (approved clock) (collection s)\<rparr>)
      else (Envelope False ''Invalid PIN. Transaction blocked and recipient blacklisted.'',
            if entries_for (recipient_account (transaction pin_data)) (blacklist_collection s) = []
            then s\<lparr>blacklist_collection := blacklist_collection s @
                    [invalid_pin_entry (recipient_account (transaction pin_data)) clock
                       (account pin_data)]\<rparr>
            else s))"
proof -
  have a: "approved clock = (\<lambda>d. d\<lparr>doc_pin_verified := True, doc_status := ''approved'',
                          doc_verified_at := Some clock\<rparr>)"
    by (rule ext) (simp add: approved_def)
  show ?thesis
    using assms
    by (auto simp: verify_pin_def verify_pin_try_def users_find_one_def blacklist_find_one_def
        blacklist_insert_one_def collection_update_one_def Let_def invalid_pin_entry_def a
        find_entries_for [symmetric] split: option.splits)
qed

lemma alice_found:
  "find (\<lambda>u. user_account u = account good_pin) (users_collection state0) = Some alice"
  "find (\<lambda>u. user_account u = account bad_pin) (users_collection state0) = Some alice"
  "find (\<lambda>u. user_account u = account good_pin) (users_collection state1) = Some alice"
  "find (\<lambda>u. user_account u = account bad_pin) (users_collection state1) = Some alice"
  "find (\<lambda>u. user_account u = account bad_pin) (users_collection state_blocked) = Some alice"
  by (simp_all add: state_blocked_def state1_def state0_def alice_def good_pin_def bad_pin_def)

lemma alice_pins:
  "verify_password sha256_known (pin good_pin) (user_pin alice)"
  "\<not> verify_password sha256_known (pin bad_pin) (user_pin alice)"
  by (simp_all add: verify_password_def sha256_known_def alice_def good_pin_def bad_pin_def)

lemma states_up: "mongo_up state0" "mongo_up state1" "mongo_up state_blocked"
  by (simp_all add: state_blocked_def state1_def state0_def)

text \<open>
  Claim C1. Every transaction that \<^verbatim>\<open>check_fraud\<close> scores (the timestamp parses, the
  database answers) gets a verdict that is fraud if and only if at least one of the four
  signals fires: blacklisted originating address, blacklisted recipient account,
  behavioral anomaly, geo drift. The transaction is stored once; with a fraud verdict its
  status is \<^verbatim>\<open>pending\<close> and \<^verbatim>\<open>pin_verified\<close> is false, otherwise its status is
  \<^verbatim>\<open>approved\<close> and \<^verbatim>\<open>pin_verified\<close> is true.
\<close>

theorem check_fraud_verdict_and_status:
  assumes "mongo_up s" and "strptime (timestamp txn) = Inr now"
  shows "\<exists>r s' d.
     check_fraud geodesic clock s txn request = Inr (r, s') \<and>
     (fraud r \<longleftrightarrow>
        get_client_ip request \<in> BLACKLISTED_IPS
        \<or> entries_for (recipient_account txn) (blacklist_collection s) \<noteq> []
        \<or> detect_behavioral_anomaly
             (sort_key doc_timestamp (filter (\<lambda>d. doc_card_type d = card_type txn) (collection s)))
             (amount txn)
        \<or> detect_geo_drift geodesic (last_known_location s) (card_type txn) (location txn)) \<and>
     collection s' = collection s @ [d] \<and>
     doc_transaction_id d = transaction_id txn \<and> doc_is_fraud d = fraud r \<and>
     (fraud r \<longrightarrow> doc_status d = ''pending'' \<and> \<not> doc_pin_verified d) \<and>
     (\<not> fraud r \<longrightarrow> doc_status d = ''approved'' \<and> doc_pin_verified d)"
  by (simp add: check_fraud_unfold [OF assms refl refl refl refl refl] find_entries_for)

theorem check_fraud_verdict_and_status_witness:
  "mongo_up state0 \<and> strptime (timestamp txn1) = Inr (2025, 8, 7, 16, 55, 0, 0) \<and>
   (\<exists>r s' d. check_fraud geodesic_known clock1 state0 txn1 req1 = Inr (r, s') \<and> \<not> fraud r \<and>
      collection s' = [d] \<and> doc_transaction_id d = ''T1'' \<and>
      doc_status d = ''approved'' \<and> doc_pin_verified d)"
proof -
  have up: "mongo_up state0" by (simp add: state0_def)
  have c: "collection state0 = []" by (simp add: state0_def)
  have t: "transaction_id txn1 = ''T1''" by (simp add: txn1_def)
  from check_fraud_verdict_and_status [OF up strptime_txn1, of geodesic_known clock1 req1]
  show ?thesis using up strptime_txn1 by (simp add: state0_quiet c t) blast
qed

text \<open>
  Claim C7. A scored transaction sets \<^verbatim>\<open>last_known_location\<close> of its instrument to its
  location exactly when the verdict is not fraud; with a fraud verdict the dictionary is
  unchanged. The other operation, \<^verbatim>\<open>verify_pin\<close>, never changes it.
\<close>

theorem last_known_location_update:
  assumes "check_fraud geodesic clock s txn request = Inr (r, s')"
  shows "(\<not> fraud r \<longrightarrow>
            last_known_location s' = (last_known_location s)(card_type txn \<mapsto> location txn)) \<and>
         (fraud r \<longrightarrow> last_known_location s' = last_known_location s) \<and>
         last_known_location (snd (verify_pin sha256 clock' s pin_data)) = last_known_location s"
proof -
  from check_fraud_returns [OF assms] obtain now where
    h: "mongo_up s" "strptime (timestamp txn) = Inr now" by blast
  from assms show ?thesis
    unfolding check_fraud_unfold [OF h refl refl refl refl refl] by (auto simp: verify_pin_last_known_location)
qed

theorem last_known_location_update_witness:
  "(\<exists>r s'. check_fraud geodesic_known clock1 state0 txn1 req1 = Inr (r, s') \<and> \<not> fraud r \<and>
      last_known_location s' = [''visa'' \<mapsto> ''Chennai''] \<and>
      last_known_location (snd (verify_pin sha256_known clock2 state0 good_pin)) = Map.empty) \<and>
   (\<exists>r s'. check_fraud geodesic_known clock1 state0 txn1 req_forwarded = Inr (r, s') \<and> fraud r \<and>
      last_known_location s' = Map.empty)"
proof -
  have up: "mongo_up state0" by (simp add: state0_def)
  have l: "last_known_location state0 = Map.empty" by (simp add: state0_def)
  have t: "card_type txn1 = ''visa''" "location txn1 = ''Chennai''" by (simp_all add: txn1_def)
  have ip: "get_client_ip req_forwarded \<in> BLACKLISTED_IPS"
    by (simp add: get_client_ip_def req_forwarded_def BLACKLISTED_IPS_def strip_def split_first_def
        is_space_def)
  obtain r1 s1 where a: "check_fraud geodesic_known clock1 state0 txn1 req1 = Inr (r1, s1)"
    and f1: "\<not> fraud r1"
    using check_fraud_unfold [OF up strptime_txn1 refl refl refl refl refl, where request = req1 and geodesic = geodesic_known and clock = clock1]
    by (simp add: state0_quiet find_entries_for)
  obtain r2 s2 where b: "check_fraud geodesic_known clock1 state0 txn1 req_forwarded = Inr (r2, s2)"
    and f2: "fraud r2"
    using check_fraud_unfold [OF up strptime_txn1 refl refl refl refl refl, where request = req_forwarded and geodesic = geodesic_known and clock = clock1] ip
    by simp
  from last_known_location_update [OF a, of sha256_known clock2 good_pin]
       last_known_location_update [OF b, of sha256_known clock2 good_pin]
  show ?thesis using a b f1 f2 by (simp add: l t)
qed

section \<open>The challenge coordinator\<close>

text \<open>
  Claim C9. When the account exists and the submitted PIN matches the stored hash,
  \<^verbatim>\<open>verify_pin\<close> answers success with the message
  \<^verbatim>\<open>PIN verified successfully. Transaction approved.\<close> even if no stored transaction has
  the submitted identifier: the update matches nothing and the state is unchanged.
\<close>

theorem verify_pin_success_without_transaction:
  assumes "mongo_up s"
    and "find (\<lambda>u. user_account u = account pin_data) (users_collection s) = Some user"
    and "verify_password sha256 (pin pin_data) (user_pin user)"
    and "find (\<lambda>d. doc_transaction_id d = transaction_id (transaction pin_data)) (collection s)
           = None"
  shows "verify_pin sha256 clock s pin_data =
           (Envelope True ''PIN verified successfully. Transaction approved.'', s)"
proof -
  from assms(4) have "\<forall>d \<in> set (collection s).
      \<not> doc_transaction_id d = transaction_id (transaction pin_data)"
    by (auto simp: find_None_iff)
  then show ?thesis
    using assms(3) by (simp add: verify_pin_found [OF assms(1,2)] update_first_no_match)
qed

theorem verify_pin_success_without_transaction_witness:
  "mongo_up state0 \<and>
   find (\<lambda>u. user_account u = account good_pin) (users_collection state0) = Some alice \<and>
   verify_password sha256_known (pin good_pin) (user_pin alice) \<and>
   find (\<lambda>d. doc_transaction_id d = transaction_id (transaction good_pin)) (collection state0)
     = None \<and>
   verify_pin sha256_known clock2 state0 good_pin =
     (Envelope True ''PIN verified successfully. Transaction approved.'', state0)"
proof -
  have n: "find (\<lambda>d. doc_transaction_id d = transaction_id (transaction good_pin))
             (collection state0) = None"
    by (simp add: state0_def)
  from verify_pin_success_without_transaction [OF states_up(1) alice_found(1) alice_pins(1) n, of clock2]
  show ?thesis using states_up(1) alice_found(1) alice_pins(1) n by simp
qed

lemma update_first_split:
  "find P xs = Some d \<Longrightarrow>
     \<exists>pre post. xs = pre @ d # post \<and> (\<forall>x \<in> set pre. \<not> P x) \<and>
       update_first P f xs = pre @ f d # post"
proof (induction xs)
  case Nil
  then show ?case by simp
next
  case (Cons x xs)
  show ?case
  proof (cases "P x")
    case True
    with Cons.prems have "x = d" by simp
    with True have "x # xs = [] @ d # xs \<and> (\<forall>y \<in> set []. \<not> P y) \<and>
        update_first P f (x # xs) = [] @ f d # xs" by simp
    then show ?thesis by blast
  next
    case False
    with Cons.prems have "find P xs = Some d" by simp
    from Cons.IH [OF this] obtain pre post where
      h: "xs = pre @ d # post" "\<forall>y \<in> set pre. \<not> P y" "update_first P f xs = pre @ f d # post"
      by blast
    with False have "x # xs = (x # pre) @ d # post \<and> (\<forall>y \<in> set (x # pre). \<not> P y) \<and>
        update_first P f (x # xs) = (x # pre) @ f d # post" by simp
    then show ?thesis by blast
  qed
qed

lemma singleton_split: "[x] = pre @ y # post \<Longrightarrow> pre = [] \<and> post = []"
  by (cases pre) auto

lemma verify_pin_good_example:
  "verify_pin sha256_known clock2 state1 good_pin =
     (Envelope True ''PIN verified successfully. Transaction approved.'',
      state1\<lparr>collection := [approved clock2 doc1]\<rparr>)"
  by (simp add: verify_pin_found [OF states_up(2) alice_found(3)] alice_pins)
     (simp add: state1_def good_pin_def txn1_def doc1_def)

lemma verify_pin_bad_example:
  "verify_pin sha256_known clock2 state1 bad_pin =
     (Envelope False ''Invalid PIN. Transaction blocked and recipient blacklisted.'',
      state1\<lparr>blacklist_collection := [invalid_pin_entry ''ACC2002'' clock2 ''ACC1001'']\<rparr>)"
  by (simp add: verify_pin_found [OF states_up(2) alice_found(4)] alice_pins)
     (simp add: state1_def state0_def bad_pin_def txn1_def entries_for_def)

lemma verify_pin_blocked_example:
  "verify_pin sha256_known clock2 state_blocked bad_pin =
     (Envelope False ''Invalid PIN. Transaction blocked and recipient blacklisted.'', state_blocked)"
  by (simp add: verify_pin_found [OF states_up(3) alice_found(5)] alice_pins)
     (simp add: state_blocked_def bad_pin_def txn1_def entries_for_def invalid_pin_entry_def)

text \<open>
  Claim C3, as the code has it. For a call on an existing account: if the submitted PIN
  matches the stored hash, the first stored transaction with the submitted identifier (if
  there is one) gets status \<^verbatim>\<open>approved\<close> and \<^verbatim>\<open>pin_verified\<close> true, every other
  document and the blacklist are unchanged. If the PIN does not match, the stored
  transactions are unchanged, and the recipient account is inserted into the blacklist
  (type \<^verbatim>\<open>account\<close>, reason \<^verbatim>\<open>Invalid PIN verification - potential fraud\<close>, blocked by
  the verifying account) unless an entry for it exists already; then the blacklist is
  unchanged too.
\<close>

theorem verify_pin_effects:
  assumes "mongo_up s"
    and "find (\<lambda>u. user_account u = account pin_data) (users_collection s) = Some user"
    and "s' = snd (verify_pin sha256 clock s pin_data)"
    and "tid = transaction_id (transaction pin_data)"
    and "recipient = recipient_account (transaction pin_data)"
  shows "(verify_password sha256 (pin pin_data) (user_pin user) \<longrightarrow>
            blacklist_collection s' = blacklist_collection s \<and>
            (\<forall>d. find (\<lambda>d. doc_transaction_id d = tid) (collection s) = Some d \<longrightarrow>
               (\<exists>pre post d'. collection s = pre @ d # post \<and>
                  (\<forall>x \<in> set pre. doc_transaction_id x \<noteq> tid) \<and>
                  d' = approved clock d \<and> doc_status d' = ''approved'' \<and> doc_pin_verified d' \<and>
                  collection s' = pre @ d' # post))) \<and>
         (\<not> verify_password sha256 (pin pin_data) (user_pin user) \<longrightarrow>
            collection s' = collection s \<and>
            (entries_for recipient (blacklist_collection s) = [] \<longrightarrow>
               blacklist_collection s' = blacklist_collection s @
                 [invalid_pin_entry recipient clock (account pin_data)]) \<and>
            (entries_for recipient (blacklist_collection s) \<noteq> [] \<longrightarrow>
               blacklist_collection s' = blacklist_collection s))"
proof (intro conjI impI allI)
  assume ok: "verify_password sha256 (pin pin_data) (user_pin user)"
  then show "blacklist_collection s' = blacklist_collection s"
    by (simp add: assms(3) verify_pin_found [OF assms(1,2)])
  fix d
  assume f: "find (\<lambda>d. doc_transaction_id d = tid) (collection s) = Some d"
  from update_first_split [OF f, of "approved clock"] obtain pre post where
    h: "collection s = pre @ d # post" "\<forall>x \<in> set pre. doc_transaction_id x \<noteq> tid"
       "update_first (\<lambda>d. doc_transaction_id d = tid) (approved clock) (collection s)
          = pre @ approved clock d # post"
    by blast
  have "collection s' = pre @ approved clock d # post"
    using ok h(3) by (simp add: assms(3,4) verify_pin_found [OF assms(1,2)])
  moreover have "doc_status (approved clock d) = ''approved''" "doc_pin_verified (approved clock d)"
    by (simp_all add: approved_def)
  ultimately show "\<exists>pre post d'. collection s = pre @ d # post \<and>
                  (\<forall>x \<in> set pre. doc_transaction_id x \<noteq> tid) \<and>
                  d' = approved clock d \<and> doc_status d' = ''approved'' \<and> doc_pin_verified d' \<and>
                  collection s' = pre @ d' # post"
    using h(1,2) by blast
next
  assume bad: "\<not> verify_password sha256 (pin pin_data) (user_pin user)"
  then show "collection s' = collection s"
    by (simp add: assms(3) verify_pin_found [OF assms(1,2)])
  {
    assume "entries_for recipient (blacklist_collection s) = []"
    with bad show "blacklist_collection s' = blacklist_collection s @
                 [invalid_pin_entry recipient clock (account pin_data)]"
      by (simp add: assms(3,5) verify_pin_found [OF assms(1,2)])
  }
  {
    assume "entries_for recipient (blacklist_collection s) \<noteq> []"
    with bad show "blacklist_collection s' = blacklist_collection s"
      by (simp add: assms(3,5) verify_pin_found [OF assms(1,2)])
  }
qed

theorem verify_pin_effects_witness:
  "mongo_up state1 \<and>
   find (\<lambda>u. user_account u = account good_pin) (users_collection state1) = Some alice \<and>
   find (\<lambda>u. user_account u = account bad_pin) (users_collection state1) = Some alice \<and>
   verify_password sha256_known (pin good_pin) (user_pin alice) \<and>
   find (\<lambda>d. doc_transaction_id d = transaction_id (transaction good_pin)) (collection state1)
     = Some doc1 \<and>
   collection (snd (verify_pin sha256_known clock2 state1 good_pin)) = [approved clock2 doc1] \<and>
   blacklist_collection (snd (verify_pin sha256_known clock2 state1 good_pin)) = [] \<and>
   \<not> verify_password sha256_known (pin bad_pin) (user_pin alice) \<and>
   entries_for (recipient_account (transaction bad_pin)) (blacklist_collection state1) = [] \<and>
   collection (snd (verify_pin sha256_known clock2 state1 bad_pin)) = [doc1] \<and>
   blacklist_collection (snd (verify_pin sha256_known clock2 state1 bad_pin))
     = [invalid_pin_entry ''ACC2002'' clock2 ''ACC1001'']"
proof -
  have f: "find (\<lambda>d. doc_transaction_id d = transaction_id (transaction good_pin))
             (collection state1) = Some doc1"
    by (simp add: state1_def good_pin_def txn1_def doc1_def)
  have e: "entries_for (recipient_account (transaction bad_pin)) (blacklist_collection state1) = []"
    by (simp add: state1_def state0_def entries_for_def)
  have c: "collection state1 = [doc1]" "blacklist_collection state1 = []"
    by (simp_all add: state1_def state0_def)
  have r: "recipient_account (transaction bad_pin) = ''ACC2002''" "account bad_pin = ''ACC1001''"
    by (simp_all add: bad_pin_def txn1_def)
  from verify_pin_effects [OF states_up(2) alice_found(3) refl refl refl, of sha256_known clock2]
  have g: "collection (snd (verify_pin sha256_known clock2 state1 good_pin)) = [approved clock2 doc1]"
      "blacklist_collection (snd (verify_pin sha256_known clock2 state1 good_pin)) = []"
    using alice_pins(1) f c by (auto dest: singleton_split)
  from verify_pin_effects [OF states_up(2) alice_found(4) refl refl refl, of sha256_known clock2]
  have b: "collection (snd (verify_pin sha256_known clock2 state1 bad_pin)) = [doc1]"
      "blacklist_collection (snd (verify_pin sha256_known clock2 state1 bad_pin))
         = [invalid_pin_entry ''ACC2002'' clock2 ''ACC1001'']"
    using alice_pins(2) e c r by auto
  show ?thesis using states_up(2) alice_found(3,4) alice_pins f e g b by simp
qed

text \<open>
  Claim C3 as stated fails when the recipient is blacklisted already: account
  \<^verbatim>\<open>ACC1001\<close> fails its PIN for a transaction to \<^verbatim>\<open>ACC2002\<close>, which \<^verbatim>\<open>ACC9999\<close> had
  blocked; nothing is inserted, and no entry names \<^verbatim>\<open>ACC1001\<close> as the blocker.
\<close>

theorem verify_pin_blocked_by_counterexample:
  "\<not> verify_password sha256_known (pin bad_pin) (user_pin alice) \<and>
   account bad_pin = ''ACC1001'' \<and>
   recipient_account (transaction bad_pin) = ''ACC2002'' \<and>
   blacklist_collection (snd (verify_pin sha256_known clock2 state_blocked bad_pin))
     = [invalid_pin_entry ''ACC2002'' clock1 ''ACC9999''] \<and>
   map bl_blocked_by (blacklist_collection (snd (verify_pin sha256_known clock2 state_blocked bad_pin)))
     = [''ACC9999'']"
  using alice_pins(2)
  by (simp add: verify_pin_blocked_example)
     (simp add: state_blocked_def bad_pin_def txn1_def invalid_pin_entry_def)

lemma failed_pin_user:
  assumes "failed_pin sha256 (users_collection s) r pin_data"
  obtains user where "find (\<lambda>u. user_account u = account pin_data) (users_collection s) = Some user"
    and "\<not> verify_password sha256 (pin pin_data) (user_pin user)"
    and "recipient_account (transaction pin_data) = r"
  using assms by (auto simp: failed_pin_def split: option.splits)

lemma verify_pin_failed_first:
  assumes "mongo_up s" "failed_pin sha256 (users_collection s) r pin_data"
    and "entries_for r (blacklist_collection s) = []"
  shows "snd (verify_pin sha256 clock s pin_data) =
           s\<lparr>blacklist_collection := blacklist_collection s @
               [invalid_pin_entry r clock (account pin_data)]\<rparr>"
proof -
  from failed_pin_user [OF assms(2)] obtain user where
    u: "find (\<lambda>u. user_account u = account pin_data) (users_collection s) = Some user"
       "\<not> verify_password sha256 (pin pin_data) (user_pin user)"
       "recipient_account (transaction pin_data) = r" by blast
  show ?thesis using u(2,3) assms(3) by (simp add: verify_pin_found [OF assms(1) u(1)])
qed

lemma verify_pin_failed_again:
  assumes "mongo_up s" "failed_pin sha256 (users_collection s) r pin_data"
    and "entries_for r (blacklist_collection s) \<noteq> []"
  shows "snd (verify_pin sha256 clock s pin_data) = s"
proof -
  from failed_pin_user [OF assms(2)] obtain user where
    u: "find (\<lambda>u. user_account u = account pin_data) (users_collection s) = Some user"
       "\<not> verify_password sha256 (pin pin_data) (user_pin user)"
       "recipient_account (transaction pin_data) = r" by blast
  show ?thesis using u(2,3) assms(3) by (simp add: verify_pin_found [OF assms(1) u(1)])
qed

lemma verify_pin_seq_blocked:
  assumes "mongo_up s" "entries_for r (blacklist_collection s) \<noteq> []"
    and "\<forall>c \<in> set calls. failed_pin sha256 (users_collection s) r (snd c)"
  shows "verify_pin_seq sha256 s calls = s"
  using assms(3)
proof (induction calls)
  case Nil
  show ?case by simp
next
  case (Cons c calls)
  obtain clock pin_data where c: "c = (clock, pin_data)" by (cases c)
  with Cons.prems have "failed_pin sha256 (users_collection s) r pin_data" by simp
  from verify_pin_failed_again [OF assms(1) this assms(2)]
  have "snd (verify_pin sha256 clock s pin_data) = s" .
  with Cons c show ?case by simp
qed

lemma entries_for_invalid_pin_entry:
  "entries_for r (bl @ [invalid_pin_entry r clock blocker])
     = entries_for r bl @ [invalid_pin_entry r clock blocker]"
  by (simp add: entries_for_def invalid_pin_entry_def)

lemma verify_pin_seq_failed:
  assumes "mongo_up s" "calls \<noteq> []"
    and "\<forall>c \<in> set calls. failed_pin sha256 (users_collection s) r (snd c)"
    and "entries_for r (blacklist_collection s) = []"
  shows "verify_pin_seq sha256 s calls =
           s\<lparr>blacklist_collection := blacklist_collection s @
               [invalid_pin_entry r (fst (hd calls)) (account (snd (hd calls)))]\<rparr>"
proof -
  from assms(2) obtain clock pin_data rest where c: "calls = (clock, pin_data) # rest"
    by (cases calls) auto
  define s1 where "s1 = s\<lparr>blacklist_collection := blacklist_collection s @
               [invalid_pin_entry r clock (account pin_data)]\<rparr>"
  from c assms(3) have f: "failed_pin sha256 (users_collection s) r pin_data" by simp
  from verify_pin_failed_first [OF assms(1) f assms(4)]
  have 1: "snd (verify_pin sha256 clock s pin_data) = s1" by (simp add: s1_def)
  have up: "mongo_up s1" using assms(1) by (simp add: s1_def)
  have e: "entries_for r (blacklist_collection s1) \<noteq> []"
    by (simp add: s1_def entries_for_invalid_pin_entry)
  have u: "\<forall>c \<in> set rest. failed_pin sha256 (users_collection s1) r (snd c)"
    using assms(3) c by (simp add: s1_def)
  from verify_pin_seq_blocked [OF up e u] have "verify_pin_seq sha256 s1 rest = s1" .
  with 1 c show ?thesis by (simp add: s1_def)
qed

lemma bad_pin_failed: "failed_pin sha256_known (users_collection state1) ''ACC2002'' bad_pin"
  using alice_pins(2) by (simp add: failed_pin_def alice_found(4)) (simp add: bad_pin_def txn1_def)

lemma state1_no_entries: "entries_for r (blacklist_collection state1) = []"
  by (simp add: state1_def state0_def entries_for_def)

text \<open>
  Claim C2, as the code has it. After any non-empty sequence of failed PIN verifications
  that name the same recipient account, starting from a blacklist with no entry for it,
  the blacklist holds exactly one entry for the pair (\<^verbatim>\<open>account\<close>, recipient): the entry the
  first failure inserted. A repeated failure inserts nothing and appends nothing, so the
  entry keeps its single reason.
\<close>

theorem blacklist_single_entry:
  assumes "mongo_up s" and "calls \<noteq> []"
    and "\<forall>c \<in> set calls. failed_pin sha256 (users_collection s) r (snd c)"
    and "entries_for r (blacklist_collection s) = []"
  shows "entries_for r (blacklist_collection (verify_pin_seq sha256 s calls))
           = [invalid_pin_entry r (fst (hd calls)) (account (snd (hd calls)))] \<and>
         map bl_reason (entries_for r (blacklist_collection (verify_pin_seq sha256 s calls)))
           = [[''Invalid PIN verification - potential fraud'']]"
  using assms(4)
  by (simp add: verify_pin_seq_failed [OF assms] entries_for_invalid_pin_entry)
     (simp add: invalid_pin_entry_def)

theorem blacklist_single_entry_witness:
  "mongo_up state1 \<and>
   failed_pin sha256_known (users_collection state1) ''ACC2002'' bad_pin \<and>
   entries_for ''ACC2002'' (blacklist_collection state1) = [] \<and>
   entries_for ''ACC2002''
     (blacklist_collection (verify_pin_seq sha256_known state1 [(clock1, bad_pin), (clock2, bad_pin)]))
     = [invalid_pin_entry ''ACC2002'' clock1 ''ACC1001'']"
proof -
  have c: "[(clock1, bad_pin), (clock2, bad_pin)] \<noteq> []" by simp
  have a: "\<forall>c \<in> set [(clock1, bad_pin), (clock2, bad_pin)].
             failed_pin sha256_known (users_collection state1) ''ACC2002'' (snd c)"
    using bad_pin_failed by simp
  have b: "account bad_pin = ''ACC1001''" by (simp add: bad_pin_def)
  from blacklist_single_entry [OF states_up(2) c a state1_no_entries]
  show ?thesis using states_up(2) bad_pin_failed state1_no_entries b by simp
qed

text \<open>
  Claim C2 as stated fails: after two failed PIN verifications naming \<^verbatim>\<open>ACC2002\<close> the
  single entry holds one reason, not two.
\<close>

theorem blacklist_reasons_counterexample:
  "failed_pin sha256_known (users_collection state1) ''ACC2002'' bad_pin \<and>
   map bl_reason (entries_for ''ACC2002''
     (blacklist_collection (verify_pin_seq sha256_known state1 [(clock1, bad_pin), (clock2, bad_pin)])))
     = [[''Invalid PIN verification - potential fraud'']]"
proof -
  have c: "[(clock1, bad_pin), (clock2, bad_pin)] \<noteq> []" by simp
  have a: "\<forall>c \<in> set [(clock1, bad_pin), (clock2, bad_pin)].
             failed_pin sha256_known (users_collection state1) ''ACC2002'' (snd c)"
    using bad_pin_failed by simp
  from verify_pin_seq_failed [OF states_up(2) c a state1_no_entries]
  show ?thesis
    using bad_pin_failed state1_no_entries
    by (simp add: entries_for_invalid_pin_entry) (simp add: invalid_pin_entry_def)
qed

section \<open>Responses\<close>

lemma verify_pin_down:
  "\<not> mongo_up s \<Longrightarrow> verify_pin sha256 clock s pin_data = (Envelope False ''Internal server error'', s)"
  by (simp add: verify_pin_def verify_pin_try_def users_find_one_def)

lemma verify_pin_envelope:
  "\<exists>ok msg. fst (verify_pin sha256 clock s pin_data) = Envelope ok msg \<and>
     msg \<in> {''User not found'', ''Invalid PIN. Transaction blocked and recipient blacklisted.'',
            ''PIN verified successfully. Transaction approved.'', ''Internal server error''}"
proof (cases "mongo_up s")
  case False
  then show ?thesis by (auto simp: verify_pin_down)
next
  case True
  show ?thesis
  proof (cases "find (\<lambda>u. user_account u = account pin_data) (users_collection s)")
    case None
    with True show ?thesis
      by (auto simp: verify_pin_def verify_pin_try_def users_find_one_def)
  next
    case (Some user)
    show ?thesis by (auto simp: verify_pin_found [OF True Some])
  qed
qed

lemma check_fraud_quiet_example:
  "map_sum id fst (check_fraud geodesic_known clock1 state0 txn1 req1) = Inr (FraudResult False [])"
  by (simp add: check_fraud_unfold [OF states_up(1) strptime_txn1 refl refl refl refl refl]
      state0_quiet find_entries_for)

lemma strptime_yesterday: "strptime ''yesterday'' = Inl ValueError"
  by code_simp

text \<open>
  Claim C8, as the code has it. \<^verbatim>\<open>verify_pin\<close> answers every input with a
  success/failure envelope whose message is one of four fixed texts; an exception inside
  the handler (the database not answering) becomes \<^verbatim>\<open>Internal server error\<close>.
  \<^verbatim>\<open>check_fraud\<close>, when it returns, answers with the verdict and the reasons, which is not
  an envelope.
\<close>

theorem handler_responses:
  "(\<exists>ok msg. fst (verify_pin sha256 clock s pin_data) = Envelope ok msg \<and>
      msg \<in> {''User not found'', ''Invalid PIN. Transaction blocked and recipient blacklisted.'',
             ''PIN verified successfully. Transaction approved.'', ''Internal server error''}) \<and>
   (\<not> mongo_up s \<longrightarrow>
      verify_pin sha256 clock s pin_data = (Envelope False ''Internal server error'', s)) \<and>
   (\<forall>r s'. check_fraud geodesic clock' s txn request = Inr (r, s') \<longrightarrow>
      (\<exists>v rs. r = FraudResult v rs))"
proof (intro conjI impI allI)
  show "\<exists>ok msg. fst (verify_pin sha256 clock s pin_data) = Envelope ok msg \<and>
      msg \<in> {''User not found'', ''Invalid PIN. Transaction blocked and recipient blacklisted.'',
             ''PIN verified successfully. Transaction approved.'', ''Internal server error''}"
    by (rule verify_pin_envelope)
next
  assume "\<not> mongo_up s"
  then show "verify_pin sha256 clock s pin_data = (Envelope False ''Internal server error'', s)"
    by (rule verify_pin_down)
next
  fix r s'
  assume a: "check_fraud geodesic clock' s txn request = Inr (r, s')"
  from check_fraud_returns [OF a] obtain now where
    h: "mongo_up s" "strptime (timestamp txn) = Inr now" by blast
  from a show "\<exists>v rs. r = FraudResult v rs"
    unfolding check_fraud_unfold [OF h refl refl refl refl refl] by auto
qed

theorem handler_responses_witness:
  "\<not> mongo_up (state0\<lparr>mongo_up := False\<rparr>) \<and>
   verify_pin sha256_known clock2 (state0\<lparr>mongo_up := False\<rparr>) good_pin
     = (Envelope False ''Internal server error'', state0\<lparr>mongo_up := False\<rparr>) \<and>
   (\<exists>r s'. check_fraud geodesic_known clock1 state0 txn1 req1 = Inr (r, s') \<and>
      r = FraudResult False [])"
proof -
  have d: "\<not> mongo_up (state0\<lparr>mongo_up := False\<rparr>)" by simp
  obtain r s' where c: "check_fraud geodesic_known clock1 state0 txn1 req1 = Inr (r, s')"
    and r: "r = FraudResult False []"
    using check_fraud_quiet_example
    by (cases "check_fraud geodesic_known clock1 state0 txn1 req1") auto
  from handler_responses [of sha256_known clock2 "state0\<lparr>mongo_up := False\<rparr>" good_pin]
    handler_responses [of sha256_known clock2 state0 good_pin geodesic_known clock1 txn1 req1]
  show ?thesis using d c r by auto
qed

text \<open>
  Claim C8 as stated fails on \<^verbatim>\<open>check_fraud\<close>: a well-formed transaction is answered
  with \<^verbatim>\<open>{"fraud": false, "reasons": []}\<close>, which has neither a success flag nor a
  message; and with the timestamp \<^verbatim>\<open>yesterday\<close> the \<^verbatim>\<open>ValueError\<close> of \<^verbatim>\<open>strptime\<close>
  leaves the handler, which has no \<^verbatim>\<open>try\<close>.
\<close>

theorem check_fraud_response_counterexample:
  "map_sum id fst (check_fraud geodesic_known clock1 state0 txn1 req1) = Inr (FraudResult False []) \<and>
   \<not> is_envelope (FraudResult False []) \<and>
   check_fraud geodesic_known clock1 state0 (txn1\<lparr>timestamp := ''yesterday''\<rparr>) req1 = Inl ValueError"
  using check_fraud_quiet_example
  by (simp add: check_fraud_def strptime_yesterday)

section \<open>The originating address\<close>

lemma get_client_ip_examples:
  "get_client_ip req_forwarded = ''203.0.113.5''"
  "get_client_ip req1 = ''10.0.0.7''"
  "get_client_ip req_empty_forwarded = ''203.0.113.5''"
  by (simp_all add: get_client_ip_def req_forwarded_def req1_def req_empty_forwarded_def
      strip_def split_first_def is_space_def)

lemma check_fraud_forwarded_example:
  "map_sum id fst (check_fraud geodesic_known clock1 state0 txn1 req_forwarded)
     = Inr (FraudResult True [''Blacklisted IP Address: 203.0.113.5''])"
  by (simp add: check_fraud_unfold [OF states_up(1) strptime_txn1 refl refl refl refl refl]
      state0_quiet find_entries_for get_client_ip_examples BLACKLISTED_IPS_def)

lemma check_fraud_empty_forwarded_example:
  "map_sum id fst (check_fraud geodesic_known clock1 state0 txn1 req_empty_forwarded)
     = Inr (FraudResult True [''Blacklisted IP Address: 203.0.113.5''])"
  by (simp add: check_fraud_unfold [OF states_up(1) strptime_txn1 refl refl refl refl refl]
      state0_quiet find_entries_for get_client_ip_examples BLACKLISTED_IPS_def)

text \<open>
  Claim C10, as the code has it. The address tested against the static denylist and
  stored with the transaction is the first comma-separated entry of the
  \<^verbatim>\<open>x-forwarded-for\<close> header, stripped of surrounding whitespace, when the header is
  present with a non-empty value; it is the peer address of the connection when the
  header is absent or empty. A denylisted address gives a fraud verdict whose first
  reason names it.
\<close>

theorem client_ip_source:
  "(map_of (headers request) ''x-forwarded-for'' = Some v \<and> v \<noteq> [] \<longrightarrow>
      get_client_ip request = strip (split_first CHR '','' v)) \<and>
   (map_of (headers request) ''x-forwarded-for'' = None \<or>
    map_of (headers request) ''x-forwarded-for'' = Some [] \<longrightarrow>
      get_client_ip request = client_host request) \<and>
   (check_fraud geodesic clock s txn request = Inr (r, s') \<longrightarrow>
      doc_client_ip (last (collection s')) = get_client_ip request \<and>
      (get_client_ip request \<in> BLACKLISTED_IPS \<longrightarrow>
         fraud r \<and> hd (reasons r) = ''Blacklisted IP Address: '' @ get_client_ip request))"
proof (intro conjI impI)
  assume "map_of (headers request) ''x-forwarded-for'' = Some v \<and> v \<noteq> []"
  then show "get_client_ip request = strip (split_first CHR '','' v)"
    by (simp add: get_client_ip_def)
next
  assume "map_of (headers request) ''x-forwarded-for'' = None \<or>
    map_of (headers request) ''x-forwarded-for'' = Some []"
  then show "get_client_ip request = client_host request"
    by (auto simp: get_client_ip_def)
next
  assume a: "check_fraud geodesic clock s txn request = Inr (r, s')"
  from check_fraud_returns [OF a] obtain now where
    h: "mongo_up s" "strptime (timestamp txn) = Inr now" by blast
  from a show "doc_client_ip (last (collection s')) = get_client_ip request"
    unfolding check_fraud_unfold [OF h refl refl refl refl refl] by auto
  assume "get_client_ip request \<in> BLACKLISTED_IPS"
  with a show "fraud r" "hd (reasons r) = ''Blacklisted IP Address: '' @ get_client_ip request"
    unfolding check_fraud_unfold [OF h refl refl refl refl refl] by auto
qed

theorem client_ip_source_witness:
  "map_of (headers req_forwarded) ''x-forwarded-for'' = Some ''203.0.113.5, 10.0.0.1'' \<and>
   get_client_ip req_forwarded = ''203.0.113.5'' \<and>
   map_of (headers req1) ''x-forwarded-for'' = None \<and>
   get_client_ip req1 = client_host req1 \<and>
   (\<exists>r s'. check_fraud geodesic_known clock1 state0 txn1 req_forwarded = Inr (r, s') \<and>
      doc_client_ip (last (collection s')) = ''203.0.113.5'' \<and> fraud r \<and>
      hd (reasons r) = ''Blacklisted IP Address: 203.0.113.5'')"
proof -
  have h1: "map_of (headers req_forwarded) ''x-forwarded-for'' = Some ''203.0.113.5, 10.0.0.1''"
    by (simp add: req_forwarded_def)
  have h2: "map_of (headers req1) ''x-forwarded-for'' = None" by (simp add: req1_def)
  have e: "strip (split_first CHR '','' ''203.0.113.5, 10.0.0.1'') = ''203.0.113.5''"
    by (simp add: strip_def split_first_def is_space_def)
  have b: "''203.0.113.5'' \<in> BLACKLISTED_IPS" by (simp add: BLACKLISTED_IPS_def)
  obtain r s' where c: "check_fraud geodesic_known clock1 state0 txn1 req_forwarded = Inr (r, s')"
    using check_fraud_forwarded_example
    by (cases "check_fraud geodesic_known clock1 state0 txn1 req_forwarded") auto
  from client_ip_source [of req_forwarded "''203.0.113.5, 10.0.0.1''" geodesic_known clock1 state0 txn1 r s']
    client_ip_source [of req1 "[]"]
  show ?thesis using h1 h2 e b c by auto
qed

text \<open>
  Claim C10 as stated fails for a header that is present and empty: its first entry is
  the empty string, but the address tested and stored is the peer address, here a
  denylisted one.
\<close>

theorem client_ip_empty_header_counterexample:
  "map_of (headers req_empty_forwarded) ''x-forwarded-for'' = Some [] \<and>
   strip (split_first CHR '','' []) = [] \<and>
   client_host req_empty_forwarded = ''203.0.113.5'' \<and>
   get_client_ip req_empty_forwarded = ''203.0.113.5'' \<and>
   map_sum id fst (check_fraud geodesic_known clock1 state0 txn1 req_empty_forwarded)
     = Inr (FraudResult True [''Blacklisted IP Address: 203.0.113.5''])"
  using check_fraud_empty_forwarded_example get_client_ip_examples(3)
  by (simp add: req_empty_forwarded_def strip_def split_first_def)

end
